theory Spec2Isabelle
  imports Complex_Main "HOL-Library.Product_Lexorder" "HOL-Library.Option_ord"
begin

section \<open>Numbers, dates and strings of the runtime\<close>

text \<open>
  The services of \<^verbatim>\<open>analytics.service.ts\<close> and \<^verbatim>\<open>budget.service.ts\<close> compute over
  JavaScript numbers and \<^verbatim>\<open>Date\<close> objects and over the documents of three MongoDB
  collections. The embedding fixes the following reading of the runtime:

  \<^item> a stored amount or budget is an exact rational (\<open>rat\<close>); the rounding of IEEE
    doubles is not modelled;
  \<^item> the result of a JavaScript division is a \<open>jsnum\<close>, so that a division by zero
    yields \<open>Infinity\<close> or \<open>NaN\<close> as it does in the runtime and not HOL's \<open>x / 0 = 0\<close>;
  \<^item> the totals by type of the financial overview, which feed the savings rate, are
    \<open>jsnum\<close>s computed with the overflow of doubles: a result at or beyond the overflow
    bound is an infinity, and the arithmetic on infinities and \<open>NaN\<close> is that of the
    runtime;
  \<^item> a \<^verbatim>\<open>Date\<close> is its time value, the number of milliseconds since the epoch, and
    the process runs in UTC, so that the local-time accessors of \<^verbatim>\<open>Date\<close> and the
    UTC operators \<^verbatim>\<open>$year\<close>, \<^verbatim>\<open>$month\<close>, \<^verbatim>\<open>$week\<close> of the store agree;
  \<^item> the several \<^verbatim>\<open>new Date()\<close> calls of one request read the same instant \<open>now\<close>,
    which every operation takes as an argument.
\<close>

type_synonym number = rat
type_synonym date = int
type_synonym objectId = nat

datatype jsnum = Num rat | PosInfinity | NegInfinity | NaN

text \<open>\<^verbatim>\<open>a / b\<close> on finite numbers.\<close>

definition js_div :: "number \<Rightarrow> number \<Rightarrow> jsnum" where
  "js_div a b =
     (if b = 0 then (if a = 0 then NaN else if 0 < a then PosInfinity else NegInfinity)
      else Num (a / b))"

text \<open>\<^verbatim>\<open>x * 100\<close>: the factor is positive, so infinities keep their sign.\<close>

fun js_times100 :: "jsnum \<Rightarrow> jsnum" where
  "js_times100 (Num q) = Num (q * 100)"
| "js_times100 PosInfinity = PosInfinity"
| "js_times100 NegInfinity = NegInfinity"
| "js_times100 NaN = NaN"

subsection \<open>Arithmetic with overflow\<close>

text \<open>
  The largest double is \<open>(2^53 - 1) * 2^971\<close>. A result whose exact value is at least
  half a unit in the last place beyond it, that is at least \<open>2^1024 - 2^970\<close>, is an
  infinity.
\<close>

definition overflow_bound :: rat where
  "overflow_bound = of_int (2 ^ 1024 - 2 ^ 970)"

definition overflow :: "rat \<Rightarrow> jsnum" where
  "overflow q =
     (if overflow_bound \<le> q then PosInfinity
      else if q \<le> - overflow_bound then NegInfinity
      else Num q)"

text \<open>\<^verbatim>\<open>a + b\<close>, \<^verbatim>\<open>-a\<close>, \<^verbatim>\<open>a - b\<close>, \<^verbatim>\<open>a / b\<close> and \<^verbatim>\<open>a * 100\<close> on all numbers.\<close>

fun js_add :: "jsnum \<Rightarrow> jsnum \<Rightarrow> jsnum" where
  "js_add (Num a) (Num b) = overflow (a + b)"
| "js_add NaN y = NaN"
| "js_add x NaN = NaN"
| "js_add PosInfinity NegInfinity = NaN"
| "js_add NegInfinity PosInfinity = NaN"
| "js_add PosInfinity y = PosInfinity"
| "js_add x PosInfinity = PosInfinity"
| "js_add NegInfinity y = NegInfinity"
| "js_add x NegInfinity = NegInfinity"

fun js_neg :: "jsnum \<Rightarrow> jsnum" where
  "js_neg (Num a) = Num (- a)"
| "js_neg PosInfinity = NegInfinity"
| "js_neg NegInfinity = PosInfinity"
| "js_neg NaN = NaN"

definition js_sub :: "jsnum \<Rightarrow> jsnum \<Rightarrow> jsnum" where
  "js_sub x y = js_add x (js_neg y)"

fun js_divide :: "jsnum \<Rightarrow> jsnum \<Rightarrow> jsnum" where
  "js_divide (Num a) (Num b) =
     (if b = 0 then (if a = 0 then NaN else if 0 < a then PosInfinity else NegInfinity)
      else overflow (a / b))"
| "js_divide NaN y = NaN"
| "js_divide x NaN = NaN"
| "js_divide (Num a) y = Num 0"
| "js_divide PosInfinity (Num b) = (if 0 \<le> b then PosInfinity else NegInfinity)"
| "js_divide NegInfinity (Num b) = (if 0 \<le> b then NegInfinity else PosInfinity)"
| "js_divide x y = NaN"

fun js_scale100 :: "jsnum \<Rightarrow> jsnum" where
  "js_scale100 (Num q) = overflow (q * 100)"
| "js_scale100 x = x"

text \<open>\<^verbatim>\<open>x > 0\<close> and \<^verbatim>\<open>x || 0\<close>: \<open>NaN\<close> is not greater than 0, and 0 and \<open>NaN\<close> are falsy.\<close>

fun js_gt0 :: "jsnum \<Rightarrow> bool" where
  "js_gt0 (Num q) = (0 < q)"
| "js_gt0 PosInfinity = True"
| "js_gt0 NegInfinity = False"
| "js_gt0 NaN = False"

fun js_or_0 :: "jsnum \<Rightarrow> jsnum" where
  "js_or_0 (Num q) = Num q"
| "js_or_0 NaN = Num 0"
| "js_or_0 x = x"

text \<open>
  The values a sum of absolute amounts can take: a number from 0 up to the overflow
  bound, or \<open>Infinity\<close>.
\<close>

fun nonneg_double :: "jsnum \<Rightarrow> bool" where
  "nonneg_double (Num q) = (0 \<le> q \<and> q < overflow_bound)"
| "nonneg_double PosInfinity = True"
| "nonneg_double NegInfinity = False"
| "nonneg_double NaN = False"

subsection \<open>The proleptic Gregorian calendar\<close>

definition msPerDay :: int where
  "msPerDay = 86400000"

text \<open>Day number (days since 1970-01-01) of a civil date, months counted from 1.\<close>

definition days_from_civil :: "int \<Rightarrow> int \<Rightarrow> int \<Rightarrow> int" where
  "days_from_civil y m d =
     (let y' = (if m \<le> 2 then y - 1 else y);
          era = y' div 400;
          yoe = y' - era * 400;
          mp = (m + 9) mod 12;
          doy = (153 * mp + 2) div 5 + d - 1;
          doe = yoe * 365 + yoe div 4 - yoe div 100 + doy
      in era * 146097 + doe - 719468)"

text \<open>
  Months elapsed since January of year 0 at a day number: the year is the quotient
  by 12 and the month index (from 0) the remainder.
\<close>

definition month_count :: "int \<Rightarrow> int" where
  "month_count n =
     (let z = n + 719468;
          era = z div 146097;
          doe = z mod 146097;
          yoe = (doe - doe div 1460 + doe div 36524 - doe div 146096) div 365;
          doy = doe - (365 * yoe + yoe div 4 - yoe div 100);
          mp = (5 * doy + 2) div 153
      in 12 * (yoe + era * 400) + mp + 2)"

text \<open>\<^verbatim>\<open>Date.prototype.getFullYear\<close>, \<^verbatim>\<open>getMonth\<close> (from 0) and \<^verbatim>\<open>getDate\<close>.\<close>

definition getFullYear :: "date \<Rightarrow> int" where
  "getFullYear t = month_count (t div msPerDay) div 12"

definition getMonth :: "date \<Rightarrow> int" where
  "getMonth t = month_count (t div msPerDay) mod 12"

definition getDate :: "date \<Rightarrow> int" where
  "getDate t = t div msPerDay - days_from_civil (getFullYear t) (getMonth t + 1) 1 + 1"

text \<open>
  \<^verbatim>\<open>new Date(year, monthIndex, day)\<close>: midnight of the day; a month index outside
  0..11 carries into the year, a day outside the month carries into the neighbouring
  months (day 0 is the last day of the month before), and a year from 0 to 99 means
  1900 + year.
\<close>

definition new_Date :: "int \<Rightarrow> int \<Rightarrow> int \<Rightarrow> date" where
  "new_Date year monthIndex day =
     (let yr = (if 0 \<le> year \<and> year \<le> 99 then 1900 + year else year)
      in (days_from_civil (yr + monthIndex div 12) (monthIndex mod 12 + 1) 1 + (day - 1))
           * msPerDay)"

text \<open>
  \<^verbatim>\<open>d.setMonth(m)\<close>: the same day of the month and time of day in month \<open>m\<close> of the
  same year, with the same carries.
\<close>

definition setMonth :: "date \<Rightarrow> int \<Rightarrow> date" where
  "setMonth t m =
     (days_from_civil (getFullYear t + m div 12) (m mod 12 + 1) 1 + (getDate t - 1)) * msPerDay
       + t mod msPerDay"

text \<open>
  The aggregation operators of the store on a date: \<^verbatim>\<open>$year\<close>, \<^verbatim>\<open>$month\<close> (1 to 12)
  and \<^verbatim>\<open>$week\<close> (0 to 53: weeks begin on Sunday, week 1 begins with the first Sunday
  of the year).
\<close>

definition year_op :: "date \<Rightarrow> int" where
  "year_op t = getFullYear t"

definition month_op :: "date \<Rightarrow> int" where
  "month_op t = getMonth t + 1"

definition week_op :: "date \<Rightarrow> int" where
  "week_op t =
     (let n = t div msPerDay;
          yday = n - days_from_civil (year_op t) 1 1;
          wday = (n + 4) mod 7
      in (yday + 7 - wday) div 7)"

subsection \<open>Strings\<close>

definition digit_char :: "nat \<Rightarrow> char" where
  "digit_char d = ''0123456789'' ! d"

fun nat_toString :: "nat \<Rightarrow> string" where
  "nat_toString n =
     (if n < 10 then [digit_char n] else nat_toString (n div 10) @ [digit_char (n mod 10)])"

declare nat_toString.simps [simp del]

text \<open>\<^verbatim>\<open>Number.prototype.toString\<close> on an integer.\<close>

definition toString :: "int \<Rightarrow> string" where
  "toString i = (if i < 0 then CHR ''-'' # nat_toString (nat (- i)) else nat_toString (nat i))"

text \<open>\<^verbatim>\<open>s.padStart(n, c)\<close> for a one-character filler.\<close>

definition padStart :: "nat \<Rightarrow> char \<Rightarrow> string \<Rightarrow> string" where
  "padStart n c s = replicate (n - length s) c @ s"

section \<open>The documents of the store\<close>

text \<open>
  The fields the two services read, from \<^verbatim>\<open>transaction.model.ts\<close>,
  \<^verbatim>\<open>category.model.ts\<close> and the budget model. The collections are lists of documents
  in insertion order.
\<close>

datatype ttype = Income | Expense

record transaction =
  t_userId :: objectId
  t_date :: date
  t_category :: string
  t_amount :: number
  t_type :: ttype

record category =
  c_userId :: objectId
  c_name :: string
  c_icon :: string
  c_color :: string

record categoryBudget =
  cb_category :: string
  cb_budget :: number
  cb_spent :: number

record budget =
  b_id :: objectId
  b_userId :: objectId
  b_month :: date
  b_totalBudget :: number
  b_categoryBudgets :: "categoryBudget list"
  b_currency :: string

section \<open>Aggregation pipeline stages and JavaScript containers\<close>

text \<open>
  \<^verbatim>\<open>$group\<close>: one output document per distinct key, holding the accumulator over
  the input documents of that key. The store leaves the order of the groups
  unspecified; the model lists them in the order of \<open>remdups\<close>.
\<close>

definition group_stage :: "('a \<Rightarrow> 'k) \<Rightarrow> ('a list \<Rightarrow> 'v) \<Rightarrow> 'a list \<Rightarrow> ('k \<times> 'v) list" where
  "group_stage key acc docs =
     map (\<lambda>k. (k, acc (filter (\<lambda>d. key d = k) docs))) (remdups (map key docs))"

text \<open>The accumulator \<^verbatim>\<open>$sum\<close> of an expression over the documents of a group.\<close>

definition sum_acc :: "('a \<Rightarrow> number) \<Rightarrow> 'a list \<Rightarrow> number" where
  "sum_acc e docs = sum_list (map e docs)"

text \<open>
  The same accumulator with the overflow of doubles: the store adds the values of the
  group one after the other, starting from 0.
\<close>

definition sum_acc_double :: "('a \<Rightarrow> number) \<Rightarrow> 'a list \<Rightarrow> jsnum" where
  "sum_acc_double e docs = foldl (\<lambda>s d. js_add s (Num (e d))) (Num 0) docs"

text \<open>
  \<^verbatim>\<open>$sort: { amount: -1 }\<close>, descending by a numeric field. The store leaves the
  order of documents with equal values unspecified; the model keeps them in their order.
\<close>

definition sort_desc :: "('a \<Rightarrow> number) \<Rightarrow> 'a list \<Rightarrow> 'a list" where
  "sort_desc f docs = sort_key (\<lambda>d. - f d) docs"

text \<open>\<^verbatim>\<open>new Map(entries)\<close>: a later entry replaces an earlier one of the same key.\<close>

definition new_Map :: "('k \<times> 'v) list \<Rightarrow> ('k \<rightharpoonup> 'v)" where
  "new_Map entries = map_of (rev entries)"

text \<open>\<^verbatim>\<open>map.get(k) || 0\<close>.\<close>

definition get_or_0 :: "('k \<rightharpoonup> number) \<Rightarrow> 'k \<Rightarrow> number" where
  "get_or_0 m k = (case m k of None \<Rightarrow> 0 | Some v \<Rightarrow> (if v = 0 then 0 else v))"

section \<open>AnalyticsService\<close>

subsection \<open>getMonthlySummary\<close>

record MonthlyData =
  md_month :: string
  md_income :: number
  md_expenses :: number
  md_net :: number

definition month_label :: "int \<Rightarrow> int \<Rightarrow> string" where
  "month_label y m = toString y @ ''-'' @ padStart 2 (CHR ''0'') (toString m)"

definition getMonthlySummary ::
  "transaction list \<Rightarrow> date \<Rightarrow> objectId \<Rightarrow> int \<Rightarrow> MonthlyData list" where
  "getMonthlySummary txs now userId months =
     (let endDate = now;
          startDate = setMonth now (getMonth now - months);
          matched = filter (\<lambda>t. t_userId t = userId \<and> startDate \<le> t_date t \<and> t_date t \<le> endDate) txs;
          grouped = group_stage (\<lambda>t. (year_op (t_date t), month_op (t_date t)))
                      (\<lambda>g. (sum_acc (\<lambda>t. if t_type t = Income then t_amount t else 0) g,
                            sum_acc (\<lambda>t. if t_type t = Expense then t_amount t else 0) g))
                      matched;
          transactions = sort_key fst grouped
      in map (\<lambda>data.
               \<lparr>md_month = month_label (fst (fst data)) (snd (fst data)),
                md_income = fst (snd data),
                md_expenses = \<bar>snd (snd data)\<bar>,
                md_net = fst (snd data) - \<bar>snd (snd data)\<bar>\<rparr>)
             transactions)"

subsection \<open>getCategorySpending\<close>

record CategorySpending =
  cs_category :: string
  cs_amount :: number
  cs_percentage :: jsnum
  cs_color :: "string option"
  cs_icon :: "string option"

text \<open>
  The \<^verbatim>\<open>date\<close> part of \<^verbatim>\<open>matchQuery\<close>: a bound is set only when its argument is
  given.
\<close>

definition date_match :: "date option \<Rightarrow> date option \<Rightarrow> date \<Rightarrow> bool" where
  "date_match startDate endDate d =
     ((case startDate of None \<Rightarrow> True | Some s \<Rightarrow> s \<le> d) \<and>
      (case endDate of None \<Rightarrow> True | Some e \<Rightarrow> d \<le> e))"

definition category_spending_rows ::
  "transaction list \<Rightarrow> objectId \<Rightarrow> date option \<Rightarrow> date option \<Rightarrow> (string \<times> number) list" where
  "category_spending_rows txs userId startDate endDate =
     sort_desc snd
       (group_stage t_category (sum_acc (\<lambda>t. \<bar>t_amount t\<bar>))
          (filter (\<lambda>t. t_userId t = userId \<and> t_type t = Expense \<and>
                       date_match startDate endDate (t_date t)) txs))"

definition getCategorySpending ::
  "transaction list \<Rightarrow> category list \<Rightarrow> objectId \<Rightarrow> date option \<Rightarrow> date option
     \<Rightarrow> CategorySpending list" where
  "getCategorySpending txs cats userId startDate endDate =
     (let spending = category_spending_rows txs userId startDate endDate;
          total = foldl (\<lambda>sum item. sum + snd item) 0 spending;
          categories = filter (\<lambda>c. c_userId c = userId) cats;
          categoryMap = new_Map (map (\<lambda>cat. (c_name cat, (c_color cat, c_icon cat))) categories)
      in map (\<lambda>item.
               \<lparr>cs_category = fst item,
                cs_amount = snd item,
                cs_percentage = (if total > 0 then js_times100 (js_div (snd item) total) else Num 0),
                cs_color = map_option fst (categoryMap (fst item)),
                cs_icon = map_option snd (categoryMap (fst item))\<rparr>)
             spending)"

subsection \<open>getSpendingTrends\<close>

datatype period = Week | Month | Year

text \<open>
  The \<^verbatim>\<open>_id\<close> of a trend group: the fields \<^verbatim>\<open>groupFormat\<close> gives it for the
  requested period.
\<close>

datatype trend_id = WeekId int int | MonthId int int | YearId int

fun groupFormat :: "period \<Rightarrow> date \<Rightarrow> trend_id" where
  "groupFormat Week d = WeekId (week_op d) (year_op d)"
| "groupFormat Month d = MonthId (month_op d) (year_op d)"
| "groupFormat Year d = YearId (year_op d)"

text \<open>
  The keys of \<^verbatim>\<open>$sort: { '_id.year': 1, '_id.month': 1, '_id.week': 1 }\<close>; a field
  the \<^verbatim>\<open>_id\<close> lacks sorts before every number.
\<close>

fun trend_sort_key :: "trend_id \<Rightarrow> int \<times> int option \<times> int option" where
  "trend_sort_key (WeekId w y) = (y, None, Some w)"
| "trend_sort_key (MonthId m y) = (y, Some m, None)"
| "trend_sort_key (YearId y) = (y, None, None)"

text \<open>
  The label of a point. The source branches on \<^verbatim>\<open>period\<close>, which fixes the shape of
  the \<^verbatim>\<open>_id\<close>.
\<close>

fun trend_label :: "trend_id \<Rightarrow> string" where
  "trend_label (YearId y) = toString y"
| "trend_label (MonthId m y) = toString y @ ''-'' @ padStart 2 (CHR ''0'') (toString m)"
| "trend_label (WeekId w y) = toString y @ ''-W'' @ padStart 2 (CHR ''0'') (toString w)"

record SpendingTrend =
  st_period :: string
  st_amount :: number
  st_change :: jsnum

definition trends_window_start :: "date \<Rightarrow> date" where
  "trends_window_start now = new_Date (getFullYear now) (getMonth now - 11) 1"

definition trend_rows :: "transaction list \<Rightarrow> date \<Rightarrow> objectId \<Rightarrow> period \<Rightarrow> (trend_id \<times> number) list" where
  "trend_rows txs now userId p =
     sort_key (\<lambda>g. trend_sort_key (fst g))
       (group_stage (\<lambda>t. groupFormat p (t_date t)) (sum_acc (\<lambda>t. \<bar>t_amount t\<bar>))
          (filter (\<lambda>t. t_userId t = userId \<and> t_type t = Expense \<and>
                       trends_window_start now \<le> t_date t) txs))"

definition getSpendingTrends ::
  "transaction list \<Rightarrow> date \<Rightarrow> objectId \<Rightarrow> period \<Rightarrow> SpendingTrend list" where
  "getSpendingTrends txs now userId p =
     (let trends = trend_rows txs now userId p
      in map (\<lambda>index.
               \<lparr>st_period = trend_label (fst (trends ! index)),
                st_amount = snd (trends ! index),
                st_change =
                  (if index > 0
                   then js_times100
                          (js_div (snd (trends ! index) - snd (trends ! (index - 1)))
                                  (snd (trends ! (index - 1))))
                   else Num 0)\<rparr>)
             [0..<length trends])"

subsection \<open>getBudgetProgress\<close>

text \<open>
  The bounds both reconcilers and the overview build from a date of the month:
  \<^verbatim>\<open>new Date(y, m, 1)\<close> and \<^verbatim>\<open>new Date(y, m + 1, 0)\<close>.
\<close>

definition startOfMonth :: "date \<Rightarrow> date" where
  "startOfMonth d = new_Date (getFullYear d) (getMonth d) 1"

definition endOfMonth :: "date \<Rightarrow> date" where
  "endOfMonth d = new_Date (getFullYear d) (getMonth d + 1) 0"

text \<open>
  The pipeline \<^verbatim>\<open>actualSpending\<close>, which both reconcilers run: the user's expense
  transactions between the two bounds, grouped by category, summing \<^verbatim>\<open>$abs\<close> of the
  amount.
\<close>

definition actualSpending ::
  "transaction list \<Rightarrow> objectId \<Rightarrow> date \<Rightarrow> date \<Rightarrow> (string \<times> number) list" where
  "actualSpending txs userId lo hi =
     group_stage t_category (sum_acc (\<lambda>t. \<bar>t_amount t\<bar>))
       (filter (\<lambda>t. t_userId t = userId \<and> t_type t = Expense \<and> lo \<le> t_date t \<and> t_date t \<le> hi) txs)"

text \<open>
  The objects the reconcilers return. A property that an object literal does not
  define is \<open>None\<close>: reading it gives \<^verbatim>\<open>undefined\<close>.
\<close>

record progress_entry =
  pe_category :: string
  pe_budget :: number
  pe_spent :: number
  pe_remaining :: number
  pe_percentage :: jsnum
  pe_overspent :: "bool option"

record progress_report =
  pr_id :: "objectId option"
  pr_userId :: "objectId option"
  pr_month :: date
  pr_totalBudget :: number
  pr_totalSpent :: number
  pr_totalRemaining :: number
  pr_totalPercentage :: jsnum
  pr_categoryBudgets :: "progress_entry list"
  pr_currency :: string
  pr_overspent :: "bool option"

text \<open>\<^verbatim>\<open>month || new Date(new Date().getFullYear(), new Date().getMonth(), 1)\<close>.\<close>

definition targetMonth :: "date \<Rightarrow> date option \<Rightarrow> date" where
  "targetMonth now month =
     (case month of Some m \<Rightarrow> m | None \<Rightarrow> new_Date (getFullYear now) (getMonth now) 1)"

definition getBudgetProgress ::
  "budget list \<Rightarrow> transaction list \<Rightarrow> date \<Rightarrow> objectId \<Rightarrow> date option \<Rightarrow> progress_report option" where
  "getBudgetProgress budgets txs now userId month =
     (let target = targetMonth now month
      in case find (\<lambda>b. b_userId b = userId \<and> b_month b = target) budgets of
           None \<Rightarrow> None
         | Some budget \<Rightarrow>
             (let spendingMap =
                    new_Map (actualSpending txs userId (startOfMonth target) (endOfMonth target));
                  updatedCategoryBudgets =
                    map (\<lambda>catBudget.
                          \<lparr>pe_category = cb_category catBudget,
                           pe_budget = cb_budget catBudget,
                           pe_spent = get_or_0 spendingMap (cb_category catBudget),
                           pe_remaining =
                             cb_budget catBudget - get_or_0 spendingMap (cb_category catBudget),
                           pe_percentage =
                             (if cb_budget catBudget > 0
                              then js_times100
                                     (js_div (get_or_0 spendingMap (cb_category catBudget))
                                             (cb_budget catBudget))
                              else Num 0),
                           pe_overspent = None\<rparr>)
                        (b_categoryBudgets budget);
                  totalSpent = foldl (\<lambda>sum cat. sum + pe_spent cat) 0 updatedCategoryBudgets;
                  totalRemaining = b_totalBudget budget - totalSpent;
                  totalPercentage =
                    (if b_totalBudget budget > 0
                     then js_times100 (js_div totalSpent (b_totalBudget budget))
                     else Num 0)
              in Some \<lparr>pr_id = None,
                       pr_userId = None,
                       pr_month = b_month budget,
                       pr_totalBudget = b_totalBudget budget,
                       pr_totalSpent = totalSpent,
                       pr_totalRemaining = totalRemaining,
                       pr_totalPercentage = totalPercentage,
                       pr_categoryBudgets = updatedCategoryBudgets,
                       pr_currency = b_currency budget,
                       pr_overspent = None\<rparr>))"

subsection \<open>getFinancialOverview\<close>

record overview_part =
  ov_income :: jsnum
  ov_expenses :: jsnum
  ov_net :: jsnum
  ov_savingsRate :: jsnum

record FinancialOverview =
  fo_monthly :: overview_part
  fo_yearly :: overview_part
  fo_topCategories :: "(string \<times> number) list"

text \<open>The two summaries by type: all the user's transactions between two bounds.\<close>

definition totals_by_type ::
  "transaction list \<Rightarrow> objectId \<Rightarrow> date \<Rightarrow> date \<Rightarrow> (ttype \<times> jsnum) list" where
  "totals_by_type txs userId lo hi =
     group_stage t_type (sum_acc_double (\<lambda>t. \<bar>t_amount t\<bar>))
       (filter (\<lambda>t. t_userId t = userId \<and> lo \<le> t_date t \<and> t_date t \<le> hi) txs)"

text \<open>\<^verbatim>\<open>summary.find((s) => s._id === ty)?.total || 0\<close>.\<close>

definition total_of :: "ttype \<Rightarrow> (ttype \<times> jsnum) list \<Rightarrow> jsnum" where
  "total_of ty summary =
     (case find (\<lambda>s. fst s = ty) summary of
        None \<Rightarrow> Num 0
      | Some s \<Rightarrow> js_or_0 (snd s))"

text \<open>\<^verbatim>\<open>income > 0 ? ((income - expenses) / income) * 100 : 0\<close>.\<close>

definition savingsRate :: "jsnum \<Rightarrow> jsnum \<Rightarrow> jsnum" where
  "savingsRate income expenses =
     (if js_gt0 income then js_scale100 (js_divide (js_sub income expenses) income) else Num 0)"

definition getFinancialOverview :: "transaction list \<Rightarrow> date \<Rightarrow> objectId \<Rightarrow> FinancialOverview" where
  "getFinancialOverview txs now userId =
     (let currentMonth = new_Date (getFullYear now) (getMonth now) 1;
          monthStart = startOfMonth currentMonth;
          monthEnd = endOfMonth currentMonth;
          monthlySummary = totals_by_type txs userId monthStart monthEnd;
          yearlySummary = totals_by_type txs userId (new_Date (getFullYear now) 0 1) monthEnd;
          topCategories = take 5 (sort_desc snd (actualSpending txs userId monthStart monthEnd));
          monthlyIncome = total_of Income monthlySummary;
          monthlyExpenses = total_of Expense monthlySummary;
          yearlyIncome = total_of Income yearlySummary;
          yearlyExpenses = total_of Expense yearlySummary
      in \<lparr>fo_monthly =
            \<lparr>ov_income = monthlyIncome,
             ov_expenses = monthlyExpenses,
             ov_net = js_sub monthlyIncome monthlyExpenses,
             ov_savingsRate = savingsRate monthlyIncome monthlyExpenses\<rparr>,
          fo_yearly =
            \<lparr>ov_income = yearlyIncome,
             ov_expenses = yearlyExpenses,
             ov_net = js_sub yearlyIncome yearlyExpenses,
             ov_savingsRate = savingsRate yearlyIncome yearlyExpenses\<rparr>,
          fo_topCategories = topCategories\<rparr>)"

section \<open>BudgetService\<close>

subsection \<open>getCurrentBudget\<close>

text \<open>
  \<^verbatim>\<open>Budget.findOne({ userId, month: { $lte: currentMonth } }).sort({ month: -1 })\<close>:
  the first document of the matching ones sorted by month, latest first.
\<close>

definition latest_budget_at_or_before :: "budget list \<Rightarrow> objectId \<Rightarrow> date \<Rightarrow> budget option" where
  "latest_budget_at_or_before budgets userId currentMonth =
     (case sort_key (\<lambda>b. - b_month b)
             (filter (\<lambda>b. b_userId b = userId \<and> b_month b \<le> currentMonth) budgets) of
        [] \<Rightarrow> None
      | b # _ \<Rightarrow> Some b)"

definition getCurrentBudget ::
  "budget list \<Rightarrow> transaction list \<Rightarrow> date \<Rightarrow> objectId \<Rightarrow> progress_report option" where
  "getCurrentBudget budgets txs now userId =
     (let currentMonth = new_Date (getFullYear now) (getMonth now) 1
      in case latest_budget_at_or_before budgets userId currentMonth of
           None \<Rightarrow> None
         | Some budget \<Rightarrow>
             (let spendingMap =
                    new_Map (actualSpending txs userId (startOfMonth (b_month budget))
                               (endOfMonth (b_month budget)));
                  updatedCategoryBudgets =
                    map (\<lambda>catBudget.
                          (let spent = get_or_0 spendingMap (cb_category catBudget)
                           in \<lparr>pe_category = cb_category catBudget,
                               pe_budget = cb_budget catBudget,
                               pe_spent = spent,
                               pe_remaining = cb_budget catBudget - spent,
                               pe_percentage =
                                 (if cb_budget catBudget > 0
                                  then js_times100 (js_div spent (cb_budget catBudget))
                                  else Num 0),
                               pe_overspent = Some (spent > cb_budget catBudget)\<rparr>))
                        (b_categoryBudgets budget);
                  totalSpent = foldl (\<lambda>sum cat. sum + pe_spent cat) 0 updatedCategoryBudgets;
                  totalRemaining = b_totalBudget budget - totalSpent;
                  totalPercentage =
                    (if b_totalBudget budget > 0
                     then js_times100 (js_div totalSpent (b_totalBudget budget))
                     else Num 0)
              in Some \<lparr>pr_id = Some (b_id budget),
                       pr_userId = Some (b_userId budget),
                       pr_month = b_month budget,
                       pr_totalBudget = b_totalBudget budget,
                       pr_totalSpent = totalSpent,
                       pr_totalRemaining = totalRemaining,
                       pr_totalPercentage = totalPercentage,
                       pr_categoryBudgets = updatedCategoryBudgets,
                       pr_currency = b_currency budget,
                       pr_overspent = Some (totalSpent > b_totalBudget budget)\<rparr>))"

subsection \<open>createBudget and updateBudget\<close>

text \<open>
  \<^verbatim>\<open>Partial<IBudget>\<close>, the body of a write request: every field may be absent. An
  entry of \<^verbatim>\<open>categoryBudgets\<close> that carries no \<^verbatim>\<open>spent\<close> has the schema's default 0.
\<close>

record budgetData =
  bd_month :: "date option"
  bd_totalBudget :: "number option"
  bd_categoryBudgets :: "categoryBudget list option"
  bd_currency :: "string option"

datatype error = BudgetExists | SumMismatch | BudgetNotFound | ValidationError

text \<open>The validators of the budget schema.\<close>

definition currencies :: "string list" where
  "currencies = [''USD'', ''EUR'', ''GBP'', ''JPY'', ''CAD'', ''AUD'']"

definition valid_totalBudget :: "number \<Rightarrow> bool" where
  "valid_totalBudget tb = (0 \<le> tb)"

definition valid_categoryBudget :: "categoryBudget \<Rightarrow> bool" where
  "valid_categoryBudget cb = (cb_category cb \<noteq> [] \<and> 0 \<le> cb_budget cb \<and> 0 \<le> cb_spent cb)"

definition valid_currency :: "string \<Rightarrow> bool" where
  "valid_currency c = (c \<in> set currencies)"

text \<open>\<^verbatim>\<open>categoryBudgets.reduce((sum, cat) => sum + cat.budget, 0)\<close>.\<close>

definition totalCategoryBudget :: "categoryBudget list \<Rightarrow> number" where
  "totalCategoryBudget cbs = foldl (\<lambda>sum cat. sum + cb_budget cat) 0 cbs"

text \<open>
  \<^verbatim>\<open>Budget.create({ ...budgetData, userId })\<close>: the document, when every required
  path is present and every validator passes. An absent array path is the empty array.
\<close>

definition Budget_create :: "objectId \<Rightarrow> budgetData \<Rightarrow> objectId \<Rightarrow> budget option" where
  "Budget_create newId budgetData userId =
     (case (bd_month budgetData, bd_totalBudget budgetData, bd_currency budgetData) of
        (Some m, Some tb, Some c) \<Rightarrow>
          (let cbs = (case bd_categoryBudgets budgetData of None \<Rightarrow> [] | Some l \<Rightarrow> l)
           in if valid_totalBudget tb \<and> list_all valid_categoryBudget cbs \<and> valid_currency c
              then Some \<lparr>b_id = newId, b_userId = userId, b_month = m, b_totalBudget = tb,
                         b_categoryBudgets = cbs, b_currency = c\<rparr>
              else None)
      | _ \<Rightarrow> None)"

text \<open>
  Every write returns the outcome and the collection after it; \<open>Inl\<close> is the thrown
  error. \<open>newId\<close> is the identifier the store gives the new document.
\<close>

definition createBudget ::
  "budget list \<Rightarrow> objectId \<Rightarrow> budgetData \<Rightarrow> objectId \<Rightarrow> (error + budget) \<times> budget list" where
  "createBudget budgets newId budgetData userId =
     (case find (\<lambda>b. b_userId b = userId \<and> Some (b_month b) = bd_month budgetData) budgets of
        Some existingBudget \<Rightarrow> (Inl BudgetExists, budgets)
      | None \<Rightarrow>
          (let total = (case bd_categoryBudgets budgetData of
                          None \<Rightarrow> 0
                        | Some cbs \<Rightarrow> totalCategoryBudget cbs)
           in if Some total \<noteq> bd_totalBudget budgetData then (Inl SumMismatch, budgets)
              else (case Budget_create newId budgetData userId of
                      None \<Rightarrow> (Inl ValidationError, budgets)
                    | Some budget \<Rightarrow> (Inr budget, budgets @ [budget]))))"

text \<open>
  \<^verbatim>\<open>Budget.findByIdAndUpdate(budgetId, updateData, { new: true, runValidators: true })\<close>:
  the validators run on the paths the update sets, and the paths it sets replace the
  stored ones.
\<close>

definition valid_update :: "budgetData \<Rightarrow> bool" where
  "valid_update u =
     ((case bd_totalBudget u of None \<Rightarrow> True | Some tb \<Rightarrow> valid_totalBudget tb) \<and>
      (case bd_categoryBudgets u of None \<Rightarrow> True | Some cbs \<Rightarrow> list_all valid_categoryBudget cbs) \<and>
      (case bd_currency u of None \<Rightarrow> True | Some c \<Rightarrow> valid_currency c))"

definition apply_update :: "budgetData \<Rightarrow> budget \<Rightarrow> budget" where
  "apply_update u b =
     b\<lparr>b_month := (case bd_month u of None \<Rightarrow> b_month b | Some m \<Rightarrow> m),
       b_totalBudget := (case bd_totalBudget u of None \<Rightarrow> b_totalBudget b | Some tb \<Rightarrow> tb),
       b_categoryBudgets :=
         (case bd_categoryBudgets u of None \<Rightarrow> b_categoryBudgets b | Some cbs \<Rightarrow> cbs),
       b_currency := (case bd_currency u of None \<Rightarrow> b_currency b | Some c \<Rightarrow> c)\<rparr>"

fun update_by_id :: "objectId \<Rightarrow> budgetData \<Rightarrow> budget list \<Rightarrow> budget list" where
  "update_by_id i u [] = []"
| "update_by_id i u (b # bs) =
     (if b_id b = i then apply_update u b # bs else b # update_by_id i u bs)"

text \<open>
  The source tests \<^verbatim>\<open>updateData.month && updateData.month !== existingBudget.month\<close>
  on two \<^verbatim>\<open>Date\<close> objects, which holds whenever the update carries a month, and
  \<^verbatim>\<open>updateData.categoryBudgets && updateData.totalBudget\<close>, which holds when the array is
  present and the total is present and not 0. \<^verbatim>\<open>findByIdAndUpdate\<close> addresses the
  document by its identifier alone; identifiers are unique in the store, so it is the
  document found at the start, and the last \<open>None\<close> branch is never taken.
\<close>

definition updateBudget ::
  "budget list \<Rightarrow> objectId \<Rightarrow> budgetData \<Rightarrow> objectId \<Rightarrow> (error + budget) \<times> budget list" where
  "updateBudget budgets budgetId updateData userId =
     (case find (\<lambda>b. b_id b = budgetId \<and> b_userId b = userId) budgets of
        None \<Rightarrow> (Inl BudgetNotFound, budgets)
      | Some existingBudget \<Rightarrow>
          (if (case bd_month updateData of
                 None \<Rightarrow> False
               | Some m \<Rightarrow>
                   find (\<lambda>b. b_userId b = userId \<and> b_month b = m \<and> b_id b \<noteq> budgetId) budgets
                     \<noteq> None)
           then (Inl BudgetExists, budgets)
           else if (case (bd_categoryBudgets updateData, bd_totalBudget updateData) of
                      (Some cbs, Some tb) \<Rightarrow> tb \<noteq> 0 \<and> totalCategoryBudget cbs \<noteq> tb
                    | _ \<Rightarrow> False)
           then (Inl SumMismatch, budgets)
           else if \<not> valid_update updateData then (Inl ValidationError, budgets)
           else (case find (\<lambda>b. b_id b = budgetId) budgets of
                   None \<Rightarrow> (Inl BudgetNotFound, budgets)
                 | Some b \<Rightarrow> (Inr (apply_update updateData b),
                              update_by_id budgetId updateData budgets))))"

text \<open>The equality the budget service checks at write time.\<close>

definition sum_invariant :: "budget \<Rightarrow> bool" where
  "sum_invariant b = (b_totalBudget b = totalCategoryBudget (b_categoryBudgets b))"

section \<open>Example data\<close>

text \<open>A user, some instants of 2024 and a few documents, for the concrete cases below.\<close>

definition alice :: objectId where
  "alice = 7"

definition jan15 :: date where "jan15 = new_Date 2024 0 15"
definition feb10 :: date where "feb10 = new_Date 2024 1 10"
definition mar01 :: date where "mar01 = new_Date 2024 2 1"
definition mar10 :: date where "mar10 = new_Date 2024 2 10"
definition mar15 :: date where "mar15 = new_Date 2024 2 15"
definition mar20 :: date where "mar20 = new_Date 2024 2 20"
definition mar31_noon :: date where "mar31_noon = new_Date 2024 2 31 + 43200000"
definition may20 :: date where "may20 = new_Date 2024 4 20"
definition apr03 :: date where "apr03 = new_Date 2024 3 3"
definition apr15 :: date where "apr15 = new_Date 2024 3 15"
definition mar10_2025 :: date where "mar10_2025 = new_Date 2025 2 10"

text \<open>A double that a schema-valid amount can be, and that overflows when doubled.\<close>

definition huge_amount :: number where
  "huge_amount = 2 ^ 1023"

definition tx :: "date \<Rightarrow> string \<Rightarrow> number \<Rightarrow> ttype \<Rightarrow> transaction" where
  "tx d c a ty = \<lparr>t_userId = alice, t_date = d, t_category = c, t_amount = a, t_type = ty\<rparr>"

definition food_budget :: budget where
  "food_budget =
     \<lparr>b_id = 1, b_userId = alice, b_month = mar01, b_totalBudget = 300,
      b_categoryBudgets = [\<lparr>cb_category = ''Food'', cb_budget = 200, cb_spent = 0\<rparr>],
      b_currency = ''USD''\<rparr>"



definition mid_april_budget :: budget where
  "mid_april_budget =
     \<lparr>b_id = 3, b_userId = alice, b_month = apr15, b_totalBudget = 200,
      b_categoryBudgets = [\<lparr>cb_category = ''Food'', cb_budget = 200, cb_spent = 0\<rparr>],
      b_currency = ''USD''\<rparr>"

definition april_report :: progress_report where
  "april_report =
     \<lparr>pr_id = Some 3, pr_userId = Some alice, pr_month = apr15, pr_totalBudget = 200,
      pr_totalSpent = 250, pr_totalRemaining = - 50, pr_totalPercentage = Num 125,
      pr_categoryBudgets =
        [\<lparr>pe_category = ''Food'', pe_budget = 200, pe_spent = 250, pe_remaining = - 50,
          pe_percentage = Num 125, pe_overspent = Some True\<rparr>],
      pr_currency = ''USD'', pr_overspent = Some True\<rparr>"

definition march_report :: progress_report where
  "march_report =
     \<lparr>pr_id = Some 1, pr_userId = Some alice, pr_month = mar01, pr_totalBudget = 300,
      pr_totalSpent = 250, pr_totalRemaining = 50, pr_totalPercentage = Num (250 / 3),
      pr_categoryBudgets =
        [\<lparr>pe_category = ''Food'', pe_budget = 200, pe_spent = 250, pe_remaining = - 50,
          pe_percentage = Num 125, pe_overspent = Some True\<rparr>],
      pr_currency = ''USD'', pr_overspent = Some False\<rparr>"

definition rent_budget :: budget where
  "rent_budget =
     \<lparr>b_id = 2, b_userId = alice, b_month = mar01, b_totalBudget = 300,
      b_categoryBudgets = [\<lparr>cb_category = ''Rent'', cb_budget = 300, cb_spent = 0\<rparr>],
      b_currency = ''USD''\<rparr>"

definition no_update :: budgetData where
  "no_update = \<lparr>bd_month = None, bd_totalBudget = None, bd_categoryBudgets = None,
                 bd_currency = None\<rparr>"

definition rent_data :: budgetData where
  "rent_data =
     \<lparr>bd_month = Some mar01, bd_totalBudget = Some 300,
      bd_categoryBudgets = Some [\<lparr>cb_category = ''Rent'', cb_budget = 300, cb_spent = 0\<rparr>],
      bd_currency = Some ''USD''\<rparr>"

section \<open>Properties of the pipeline stages\<close>

lemma group_stage_keys: "map fst (group_stage key acc docs) = remdups (map key docs)"
  by (simp add: group_stage_def comp_def)

lemma group_stage_mem:
  "(k, v) \<in> set (group_stage key acc docs) \<longleftrightarrow>
     k \<in> key ` set docs \<and> v = acc (filter (\<lambda>d. key d = k) docs)"
  by (auto simp: group_stage_def)


lemma foldl_plus: "foldl (\<lambda>sum item. sum + f item) (a::rat) xs = a + sum_list (map f xs)"
  by (induction xs arbitrary: a) (simp_all add: add.assoc)


lemma js_div_Num: "b \<noteq> 0 \<Longrightarrow> js_times100 (js_div a b) = Num (a / b * 100)"
  by (simp add: js_div_def)

lemma percentage_Num:
  "0 < tot \<Longrightarrow> js_times100 (js_div a tot) = Num (a / tot * 100)"
  by (simp add: js_div_def)

section \<open>The savings rate of the financial overview\<close>

lemma overflow_bound_pos: "0 < overflow_bound"
proof -
  have "(2::rat) ^ 970 < 2 ^ 1024" by (rule power_strict_increasing) simp_all
  then show ?thesis by (simp add: overflow_bound_def)
qed

lemma overflow_Num: "- overflow_bound < q \<Longrightarrow> q < overflow_bound \<Longrightarrow> overflow q = Num q"
  by (simp add: overflow_def)

lemma overflow_not_NaN: "overflow q \<noteq> NaN"
  by (simp add: overflow_def)

lemma js_add_nonneg:
  assumes "nonneg_double x" "0 \<le> a"
  shows "nonneg_double (js_add x (Num a))"
proof (cases x)
  case (Num q)
  with assms have "0 \<le> q + a" by simp
  with overflow_bound_pos have "\<not> q + a \<le> - overflow_bound" by simp
  with Num \<open>0 \<le> q + a\<close> show ?thesis by (simp add: overflow_def)
qed (use assms in simp_all)

lemma foldl_add_nonneg:
  "nonneg_double x \<Longrightarrow> nonneg_double (foldl (\<lambda>s d. js_add s (Num \<bar>f d\<bar>)) x docs)"
  by (induction docs arbitrary: x) (simp_all add: js_add_nonneg)

lemma sum_acc_double_nonneg: "nonneg_double (sum_acc_double (\<lambda>t. \<bar>f t\<bar>) docs)"
  unfolding sum_acc_double_def using overflow_bound_pos by (intro foldl_add_nonneg) simp

lemma js_or_0_nonneg: "nonneg_double x \<Longrightarrow> nonneg_double (js_or_0 x)"
  by (cases x) simp_all

lemma total_of_nonneg: "nonneg_double (total_of ty (totals_by_type txs userId lo hi))"
proof (cases "find (\<lambda>s. fst s = ty) (totals_by_type txs userId lo hi)")
  case None
  then show ?thesis using overflow_bound_pos by (simp add: total_of_def)
next
  case (Some s)
  then have "s \<in> set (totals_by_type txs userId lo hi)"
    by (auto simp: find_Some_iff)
  then have "(fst s, snd s) \<in> set (group_stage t_type (sum_acc_double (\<lambda>t. \<bar>t_amount t\<bar>))
       (filter (\<lambda>t. t_userId t = userId \<and> lo \<le> t_date t \<and> t_date t \<le> hi) txs))"
    by (simp add: totals_by_type_def)
  then have "nonneg_double (snd s)"
    unfolding group_stage_mem by (simp add: sum_acc_double_nonneg)
  with Some show ?thesis by (simp add: total_of_def js_or_0_nonneg)
qed

lemma savingsRate_zero: "savingsRate (Num 0) expenses = Num 0"
  by (simp add: savingsRate_def)

lemma savingsRate_finite:
  assumes "nonneg_double (Num i)" "nonneg_double (Num e)" "0 < i"
    and "\<bar>(i - e) / i * 100\<bar> < overflow_bound"
  shows "savingsRate (Num i) (Num e) = Num ((i - e) / i * 100)"
proof -
  define x where "x = (i - e) / i"
  from assms(1,2) have "- overflow_bound < i - e" "i - e < overflow_bound" by simp_all
  then have s: "js_sub (Num i) (Num e) = Num (i - e)"
    by (simp add: js_sub_def overflow_Num)
  from assms(4) have x100: "\<bar>x * 100\<bar> < overflow_bound" by (simp only: x_def)
  have "\<bar>x\<bar> \<le> \<bar>x\<bar> * 100" by simp
  also have "\<dots> = \<bar>x * 100\<bar>" by (simp add: abs_mult)
  finally have "\<bar>x\<bar> < overflow_bound" using x100 by simp
  then have "- overflow_bound < x" "x < overflow_bound" by arith+
  then have "overflow x = Num x" by (rule overflow_Num)
  with assms(3) have d: "js_divide (Num (i - e)) (Num i) = Num x"
    by (simp add: x_def)
  from x100 have "- overflow_bound < x * 100" "x * 100 < overflow_bound" by arith+
  then have "overflow (x * 100) = Num (x * 100)" by (rule overflow_Num)
  then have m: "js_scale100 (Num x) = Num (x * 100)" by simp
  have "savingsRate (Num i) (Num e) = js_scale100 (js_divide (js_sub (Num i) (Num e)) (Num i))"
    using assms(3) by (simp add: savingsRate_def)
  also have "\<dots> = Num (x * 100)" by (simp only: s d m)
  finally show ?thesis by (simp only: x_def)
qed

lemma savingsRate_NaN_iff:
  assumes "nonneg_double income" "nonneg_double expenses"
  shows "savingsRate income expenses = NaN \<longleftrightarrow> income = PosInfinity"
proof (cases income)
  case (Num i)
  show ?thesis
  proof (cases "0 < i")
    case False
    with Num show ?thesis by (simp add: savingsRate_def)
  next
    case True
    show ?thesis
    proof (cases expenses)
      case (Num e)
      from assms \<open>income = Num i\<close> Num have "- overflow_bound < i - e" "i - e < overflow_bound"
        by simp_all
      then have s: "js_sub (Num i) (Num e) = Num (i - e)"
        by (simp add: js_sub_def overflow_Num)
      have "js_scale100 (overflow ((i - e) / i)) \<noteq> NaN"
        by (simp add: overflow_def overflow_not_NaN)
      with True s \<open>income = Num i\<close> Num show ?thesis by (simp add: savingsRate_def)
    next
      case PosInfinity
      with True \<open>income = Num i\<close> show ?thesis by (simp add: savingsRate_def js_sub_def)
    qed (use assms in simp_all)
  qed
next
  case PosInfinity
  with assms(2) show ?thesis by (cases expenses) (simp_all add: savingsRate_def js_sub_def)
qed (use assms in simp_all)

lemma overview_monthly:
  "fo_monthly (getFinancialOverview txs now userId) =
     (let s = totals_by_type txs userId (startOfMonth (new_Date (getFullYear now) (getMonth now) 1))
                (endOfMonth (new_Date (getFullYear now) (getMonth now) 1));
          i = total_of Income s; e = total_of Expense s
      in \<lparr>ov_income = i, ov_expenses = e, ov_net = js_sub i e, ov_savingsRate = savingsRate i e\<rparr>)"
  by (simp add: getFinancialOverview_def Let_def)

lemma overview_yearly:
  "fo_yearly (getFinancialOverview txs now userId) =
     (let s = totals_by_type txs userId (new_Date (getFullYear now) 0 1)
                (endOfMonth (new_Date (getFullYear now) (getMonth now) 1));
          i = total_of Income s; e = total_of Expense s
      in \<lparr>ov_income = i, ov_expenses = e, ov_net = js_sub i e, ov_savingsRate = savingsRate i e\<rparr>)"
  by (simp add: getFinancialOverview_def Let_def)

lemma overview_part_rate:
  "ov_savingsRate (fo_monthly (getFinancialOverview txs now userId)) =
     savingsRate (ov_income (fo_monthly (getFinancialOverview txs now userId)))
                 (ov_expenses (fo_monthly (getFinancialOverview txs now userId)))"
  "ov_savingsRate (fo_yearly (getFinancialOverview txs now userId)) =
     savingsRate (ov_income (fo_yearly (getFinancialOverview txs now userId)))
                 (ov_expenses (fo_yearly (getFinancialOverview txs now userId)))"
  by (simp_all add: overview_monthly overview_yearly Let_def)

lemma overview_totals_nonneg:
  "nonneg_double (ov_income (fo_monthly (getFinancialOverview txs now userId)))"
  "nonneg_double (ov_expenses (fo_monthly (getFinancialOverview txs now userId)))"
  "nonneg_double (ov_income (fo_yearly (getFinancialOverview txs now userId)))"
  "nonneg_double (ov_expenses (fo_yearly (getFinancialOverview txs now userId)))"
  by (simp_all add: overview_monthly overview_yearly Let_def total_of_nonneg)

lemma part_rate:
  assumes "ov_savingsRate part = savingsRate (ov_income part) (ov_expenses part)"
    and "nonneg_double (ov_income part)" "nonneg_double (ov_expenses part)"
  shows "nonneg_double (ov_income part) \<and>
      (ov_income part = Num 0 \<longrightarrow> ov_savingsRate part = Num 0) \<and>
      (\<forall>i e. ov_income part = Num i \<and> 0 < i \<and> ov_expenses part = Num e \<and>
             \<bar>(i - e) / i * 100\<bar> < overflow_bound \<longrightarrow>
         ov_savingsRate part = Num ((i - e) / i * 100)) \<and>
      (ov_savingsRate part = NaN \<longleftrightarrow> ov_income part = PosInfinity)"
proof (intro conjI allI impI)
  show "nonneg_double (ov_income part)" by (rule assms(2))
  show "ov_savingsRate part = Num 0" if "ov_income part = Num 0"
    using that by (simp add: assms(1) savingsRate_zero)
  show "ov_savingsRate part = NaN \<longleftrightarrow> ov_income part = PosInfinity"
    unfolding assms(1) using assms(2,3) by (rule savingsRate_NaN_iff)
next
  fix i e
  assume h: "ov_income part = Num i \<and> 0 < i \<and> ov_expenses part = Num e \<and>
             \<bar>(i - e) / i * 100\<bar> < overflow_bound"
  then have i: "ov_income part = Num i" and e: "ov_expenses part = Num e" and p: "0 < i"
    and b: "\<bar>(i - e) / i * 100\<bar> < overflow_bound"
    by blast+
  from assms(2,3) have n: "nonneg_double (Num i)" "nonneg_double (Num e)"
    unfolding i e by this+
  show "ov_savingsRate part = Num ((i - e) / i * 100)"
    unfolding assms(1) i e by (rule savingsRate_finite [OF n p b])
qed

text \<open>
  C6, as the code has it. In the result of \<open>getFinancialOverview\<close>, for the monthly and
  for the yearly part: the income is a number that is not negative, or \<open>Infinity\<close> when
  the sum of the amounts overflows; when the income is 0 the savings rate is the number
  0, so the zero-income case is neither \<open>NaN\<close> nor an error; when income and expenses are
  numbers, the income is greater than 0 and (income - expenses) / income * 100 is within
  the range of doubles, the savings rate is that number; and the savings rate is \<open>NaN\<close>
  exactly when the income is \<open>Infinity\<close>.
\<close>

theorem savingsRate_guarded:
  "\<forall>part \<in> {fo_monthly (getFinancialOverview txs now userId),
              fo_yearly (getFinancialOverview txs now userId)}.
      nonneg_double (ov_income part) \<and>
      (ov_income part = Num 0 \<longrightarrow> ov_savingsRate part = Num 0) \<and>
      (\<forall>i e. ov_income part = Num i \<and> 0 < i \<and> ov_expenses part = Num e \<and>
             \<bar>(i - e) / i * 100\<bar> < overflow_bound \<longrightarrow>
         ov_savingsRate part = Num ((i - e) / i * 100)) \<and>
      (ov_savingsRate part = NaN \<longleftrightarrow> ov_income part = PosInfinity)"
proof
  fix part
  assume "part \<in> {fo_monthly (getFinancialOverview txs now userId),
                  fo_yearly (getFinancialOverview txs now userId)}"
  then consider "part = fo_monthly (getFinancialOverview txs now userId)"
    | "part = fo_yearly (getFinancialOverview txs now userId)"
    by blast
  then show "nonneg_double (ov_income part) \<and>
      (ov_income part = Num 0 \<longrightarrow> ov_savingsRate part = Num 0) \<and>
      (\<forall>i e. ov_income part = Num i \<and> 0 < i \<and> ov_expenses part = Num e \<and>
             \<bar>(i - e) / i * 100\<bar> < overflow_bound \<longrightarrow>
         ov_savingsRate part = Num ((i - e) / i * 100)) \<and>
      (ov_savingsRate part = NaN \<longleftrightarrow> ov_income part = PosInfinity)"
  proof cases
    case 1
    show ?thesis unfolding 1
      by (rule part_rate [OF overview_part_rate(1) overview_totals_nonneg(1,2)])
  next
    case 2
    show ?thesis unfolding 2
      by (rule part_rate [OF overview_part_rate(2) overview_totals_nonneg(3,4)])
  qed
qed


text \<open>
  On 20 March, with a salary of 300 and an expense of 100 in January: the income of the
  month is 0 and its savings rate 0; the income of the year is 300 and its savings
  rate 200/3.
\<close>

theorem savingsRate_guarded_witness:
  "ov_income (fo_monthly (getFinancialOverview
      [tx jan15 ''Salary'' 300 Income, tx jan15 ''Food'' 100 Expense] mar20 alice)) = Num 0 \<and>
   ov_savingsRate (fo_monthly (getFinancialOverview
      [tx jan15 ''Salary'' 300 Income, tx jan15 ''Food'' 100 Expense] mar20 alice)) = Num 0 \<and>
   ov_income (fo_yearly (getFinancialOverview
      [tx jan15 ''Salary'' 300 Income, tx jan15 ''Food'' 100 Expense] mar20 alice)) = Num 300 \<and>
   ov_expenses (fo_yearly (getFinancialOverview
      [tx jan15 ''Salary'' 300 Income, tx jan15 ''Food'' 100 Expense] mar20 alice)) = Num 100 \<and>
   ov_savingsRate (fo_yearly (getFinancialOverview
      [tx jan15 ''Salary'' 300 Income, tx jan15 ''Food'' 100 Expense] mar20 alice)) =
     Num ((300 - 100) / 300 * 100)"
proof -
  let ?txs = "[tx jan15 ''Salary'' 300 Income, tx jan15 ''Food'' 100 Expense]"
  let ?o = "getFinancialOverview ?txs mar20 alice"
  let ?lo = "startOfMonth (new_Date (getFullYear mar20) (getMonth mar20) 1)"
  let ?hi = "endOfMonth (new_Date (getFullYear mar20) (getMonth mar20) 1)"
  let ?jan = "new_Date (getFullYear mar20) 0 1"
  have d: "\<not> ?lo \<le> jan15" "?jan \<le> jan15" "jan15 \<le> ?hi"
    by code_simp+
  have tm: "totals_by_type ?txs alice ?lo ?hi = []"
    using d by (simp add: totals_by_type_def group_stage_def tx_def)
  have ty: "totals_by_type ?txs alice ?jan ?hi = [(Income, Num 300), (Expense, Num 100)]"
    using d
    by (simp add: totals_by_type_def group_stage_def sum_acc_double_def tx_def
                  overflow_def overflow_bound_def)
  have m: "ov_income (fo_monthly ?o) = Num 0"
    unfolding overview_monthly tm by (simp add: total_of_def Let_def)
  have y: "ov_income (fo_yearly ?o) = Num 300"
    unfolding overview_yearly ty by (simp add: total_of_def Let_def)
  have e: "ov_expenses (fo_yearly ?o) = Num 100"
    unfolding overview_yearly ty by (simp add: total_of_def Let_def)
  have b: "\<bar>((300::rat) - 100) / 300 * 100\<bar> < overflow_bound"
    by (simp add: overflow_bound_def)
  note th = savingsRate_guarded [of ?txs mar20 alice]
  have pm: "fo_monthly ?o \<in> {fo_monthly ?o, fo_yearly ?o}" by simp
  have py: "fo_yearly ?o \<in> {fo_monthly ?o, fo_yearly ?o}" by simp
  have p: "0 < (300::rat)" by simp
  note h = conjI [OF y conjI [OF p conjI [OF e b]]]
  have w1: "ov_savingsRate (fo_monthly ?o) = Num 0"
    by (rule th [THEN bspec, OF pm, THEN conjunct2, THEN conjunct1, THEN mp, OF m])
  have w2: "ov_savingsRate (fo_yearly ?o) = Num ((300 - 100) / 300 * 100)"
    by (rule th [THEN bspec, OF py, THEN conjunct2, THEN conjunct2, THEN conjunct1,
                 THEN spec, THEN spec, THEN mp, OF h])
  from m w1 y e w2 show ?thesis by (intro conjI)
qed

lemma huge_amount_facts:
  "0 \<le> huge_amount" "huge_amount < overflow_bound" "overflow_bound \<le> huge_amount + huge_amount"
  by (simp_all add: huge_amount_def overflow_bound_def)

text \<open>
  C6, as stated, fails: the guard \<^verbatim>\<open>income > 0\<close> does not keep the result from being
  \<open>NaN\<close>. Two incomes of \<open>2^1023\<close> in March sum to \<open>Infinity\<close>, the guard passes, and
  \<open>Infinity / Infinity\<close> is \<open>NaN\<close>.
\<close>

theorem savingsRate_NaN_on_overflow:
  "ov_income (fo_monthly (getFinancialOverview
      [tx mar10 ''Salary'' huge_amount Income, tx mar15 ''Bonus'' huge_amount Income]
      mar20 alice)) = PosInfinity \<and>
   ov_savingsRate (fo_monthly (getFinancialOverview
      [tx mar10 ''Salary'' huge_amount Income, tx mar15 ''Bonus'' huge_amount Income]
      mar20 alice)) = NaN"
proof -
  let ?lo = "startOfMonth (new_Date (getFullYear mar20) (getMonth mar20) 1)"
  let ?hi = "endOfMonth (new_Date (getFullYear mar20) (getMonth mar20) 1)"
  have d: "?lo \<le> mar10" "mar10 \<le> ?hi" "?lo \<le> mar15" "mar15 \<le> ?hi"
    by code_simp+
  have s: "js_add (js_add (Num 0) (Num \<bar>huge_amount\<bar>)) (Num \<bar>huge_amount\<bar>) = PosInfinity"
    using huge_amount_facts overflow_bound_pos by (simp add: overflow_def)
  have t: "totals_by_type
             [tx mar10 ''Salary'' huge_amount Income, tx mar15 ''Bonus'' huge_amount Income]
             alice ?lo ?hi = [(Income, PosInfinity)]"
    using d s by (simp add: totals_by_type_def group_stage_def sum_acc_double_def tx_def)
  have i: "ov_income (fo_monthly (getFinancialOverview
      [tx mar10 ''Salary'' huge_amount Income, tx mar15 ''Bonus'' huge_amount Income]
      mar20 alice)) = PosInfinity"
    unfolding overview_monthly t by (simp add: total_of_def Let_def)
  have r: "ov_savingsRate (fo_monthly (getFinancialOverview
      [tx mar10 ''Salary'' huge_amount Income, tx mar15 ''Bonus'' huge_amount Income]
      mar20 alice)) = NaN"
    unfolding overview_monthly t by (simp add: total_of_def Let_def savingsRate_def js_sub_def)
  from i r show ?thesis by (rule conjI)
qed

section \<open>Amounts of either sign\<close>

text \<open>
  C1. \<open>getMonthlySummary\<close> does not sum \<open>abs(amount)\<close>: its accumulators add the stored
  amounts, and only the expense total of a bucket goes through \<^verbatim>\<open>Math.abs\<close>. An income
  stored as -50 is reported as an income of -50, and two expenses stored as -50 and 30
  in one month are reported as expenses of 20, where the sum of the absolute values
  is 80. The other aggregations apply \<^verbatim>\<open>$abs\<close> to every amount: the same two expenses
  are a category total of 80 in \<open>getCategorySpending\<close>.
\<close>

theorem monthly_summary_sums_signed_amounts:
  "getMonthlySummary [tx mar10 ''Salary'' (- 50) Income] mar20 alice 6 =
     [\<lparr>md_month = ''2024-03'', md_income = - 50, md_expenses = 0, md_net = - 50\<rparr>] \<and>
   getMonthlySummary [tx mar10 ''Food'' (- 50) Expense, tx mar15 ''Food'' 30 Expense] mar20 alice 6 =
     [\<lparr>md_month = ''2024-03'', md_income = 0, md_expenses = 20, md_net = - 20\<rparr>] \<and>
   map cs_amount
     (getCategorySpending [tx mar10 ''Food'' (- 50) Expense, tx mar15 ''Food'' 30 Expense] []
        alice None None) = [80]"
  by code_simp

section \<open>The overspent flags of the two reconcilers\<close>

text \<open>
  C2. For the budget of March with a total of 300 and 200 allocated to Food, and one
  expense of 250 on Food on 10 March, \<open>getBudgetProgress\<close> returns spent 250, remaining
  -50, percentage 125, total spent 250, total remaining 50 and total percentage 250/3,
  but neither the entry nor the report has an \<^verbatim>\<open>overspent\<close> property. \<open>getCurrentBudget\<close>
  on the same data sets both.
\<close>

theorem getBudgetProgress_has_no_overspent:
  "getBudgetProgress [food_budget] [tx mar10 ''Food'' 250 Expense] mar20 alice (Some mar01) =
     Some \<lparr>pr_id = None, pr_userId = None, pr_month = mar01, pr_totalBudget = 300,
            pr_totalSpent = 250, pr_totalRemaining = 50, pr_totalPercentage = Num (250 / 3),
            pr_categoryBudgets =
              [\<lparr>pe_category = ''Food'', pe_budget = 200, pe_spent = 250, pe_remaining = - 50,
                pe_percentage = Num 125, pe_overspent = None\<rparr>],
            pr_currency = ''USD'', pr_overspent = None\<rparr> \<and>
   getCurrentBudget [food_budget] [tx mar10 ''Food'' 250 Expense] mar20 alice =
     Some \<lparr>pr_id = Some 1, pr_userId = Some alice, pr_month = mar01, pr_totalBudget = 300,
            pr_totalSpent = 250, pr_totalRemaining = 50, pr_totalPercentage = Num (250 / 3),
            pr_categoryBudgets =
              [\<lparr>pe_category = ''Food'', pe_budget = 200, pe_spent = 250, pe_remaining = - 50,
                pe_percentage = Num 125, pe_overspent = Some True\<rparr>],
            pr_currency = ''USD'', pr_overspent = Some False\<rparr>"
  by code_simp

section \<open>Category spending\<close>
















section \<open>Spending trends\<close>


lemma trend_rows_window:
  "trend_rows (filter (\<lambda>t. t_type t = Expense \<and>
                  new_Date (getFullYear now) (getMonth now - 11) 1 \<le> t_date t) txs) now userId p =
   trend_rows txs now userId p"
proof -
  have "filter (\<lambda>t. t_userId t = userId \<and> t_type t = Expense \<and> trends_window_start now \<le> t_date t)
          (filter (\<lambda>t. t_type t = Expense \<and>
                  new_Date (getFullYear now) (getMonth now - 11) 1 \<le> t_date t) txs) =
        filter (\<lambda>t. t_userId t = userId \<and> t_type t = Expense \<and> trends_window_start now \<le> t_date t) txs"
    by (auto simp: trends_window_start_def intro: filter_cong)
  then show ?thesis by (simp add: trend_rows_def)
qed

lemma trend_rows_amount:
  assumes "(k, v) \<in> set (trend_rows txs now userId p)"
  shows "v = sum_list (map (\<lambda>t. \<bar>t_amount t\<bar>)
               (filter (\<lambda>t. groupFormat p (t_date t) = k)
                  (filter (\<lambda>t. t_userId t = userId \<and> t_type t = Expense \<and>
                     new_Date (getFullYear now) (getMonth now - 11) 1 \<le> t_date t) txs)))"
    and "k \<in> (\<lambda>t. groupFormat p (t_date t)) `
               set (filter (\<lambda>t. t_userId t = userId \<and> t_type t = Expense \<and>
                     new_Date (getFullYear now) (getMonth now - 11) 1 \<le> t_date t) txs)"
  using assms
  unfolding trend_rows_def trends_window_start_def set_sort group_stage_mem
  by (simp_all add: sum_acc_def)

lemma trends_length: "length (getSpendingTrends txs now userId p) = length (trend_rows txs now userId p)"
  by (simp add: getSpendingTrends_def Let_def)

lemma trends_nth:
  assumes "i < length (trend_rows txs now userId p)"
  shows "st_amount (getSpendingTrends txs now userId p ! i) = snd (trend_rows txs now userId p ! i)"
    and "st_period (getSpendingTrends txs now userId p ! i) =
           trend_label (fst (trend_rows txs now userId p ! i))"
    and "st_change (getSpendingTrends txs now userId p ! i) =
           (if 0 < i
            then js_times100
                   (js_div (snd (trend_rows txs now userId p ! i) - snd (trend_rows txs now userId p ! (i - 1)))
                           (snd (trend_rows txs now userId p ! (i - 1))))
            else Num 0)"
  using assms by (simp_all add: getSpendingTrends_def Let_def)

text \<open>
  C4, as the code has it. The window of \<open>getSpendingTrends\<close> has a lower bound only,
  the first day of the month eleven months before the current one, and the bound does
  not depend on the period: for every period the series is the same on the whole ledger
  and on its expense transactions dated at or after that day. Every point is the group
  of one key of the period, with the sum of the absolute amounts of the user's
  transactions of that key in the window. The first point has change 0. Every later
  point has the change the runtime computes for (current - previous) / previous * 100
  against the point just before it, which is that number whenever the previous amount
  is not 0.
\<close>

theorem getSpendingTrends_change:
  fixes txs now userId p
  defines "pts \<equiv> getSpendingTrends txs now userId p"
  defines "window \<equiv> filter (\<lambda>t. t_type t = Expense \<and>
                        new_Date (getFullYear now) (getMonth now - 11) 1 \<le> t_date t) txs"
  shows "getSpendingTrends window now userId p = pts \<and>
         (\<forall>i < length pts.
            (\<exists>k. st_period (pts ! i) = trend_label k \<and>
                 k \<in> (\<lambda>t. groupFormat p (t_date t)) ` set (filter (\<lambda>t. t_userId t = userId) window) \<and>
                 st_amount (pts ! i) =
                   sum_list (map (\<lambda>t. \<bar>t_amount t\<bar>)
                     (filter (\<lambda>t. t_userId t = userId \<and> groupFormat p (t_date t) = k) window)))) \<and>
         (pts \<noteq> [] \<longrightarrow> st_change (pts ! 0) = Num 0) \<and>
         (\<forall>i. 0 < i \<and> i < length pts \<longrightarrow>
            st_change (pts ! i) =
              js_times100 (js_div (st_amount (pts ! i) - st_amount (pts ! (i - 1)))
                                  (st_amount (pts ! (i - 1))))) \<and>
         (\<forall>i. 0 < i \<and> i < length pts \<and> st_amount (pts ! (i - 1)) \<noteq> 0 \<longrightarrow>
            st_change (pts ! i) =
              Num ((st_amount (pts ! i) - st_amount (pts ! (i - 1))) / st_amount (pts ! (i - 1)) * 100))"
proof -
  let ?rows = "trend_rows txs now userId p"
  have len: "length pts = length ?rows"
    by (simp add: pts_def trends_length)
  have c1: "getSpendingTrends window now userId p = pts"
    by (simp add: pts_def window_def getSpendingTrends_def trend_rows_window)
  have c2: "\<forall>i < length pts.
            (\<exists>k. st_period (pts ! i) = trend_label k \<and>
                 k \<in> (\<lambda>t. groupFormat p (t_date t)) ` set (filter (\<lambda>t. t_userId t = userId) window) \<and>
                 st_amount (pts ! i) =
                   sum_list (map (\<lambda>t. \<bar>t_amount t\<bar>)
                     (filter (\<lambda>t. t_userId t = userId \<and> groupFormat p (t_date t) = k) window)))"
  proof (intro allI impI)
    fix i assume i: "i < length pts"
    then have i': "i < length ?rows" by (simp add: len)
    then have "(fst (?rows ! i), snd (?rows ! i)) \<in> set ?rows" by simp
    note r = trend_rows_amount [OF this]
    have w1: "filter (\<lambda>t. t_userId t = userId) window =
              filter (\<lambda>t. t_userId t = userId \<and> t_type t = Expense \<and>
                     new_Date (getFullYear now) (getMonth now - 11) 1 \<le> t_date t) txs"
      by (auto simp: window_def intro: filter_cong)
    have w2: "filter (\<lambda>t. t_userId t = userId \<and> groupFormat p (t_date t) = fst (?rows ! i)) window =
              filter (\<lambda>t. groupFormat p (t_date t) = fst (?rows ! i))
                (filter (\<lambda>t. t_userId t = userId \<and> t_type t = Expense \<and>
                     new_Date (getFullYear now) (getMonth now - 11) 1 \<le> t_date t) txs)"
      by (auto simp: window_def intro: filter_cong)
    have "st_period (pts ! i) = trend_label (fst (?rows ! i))"
      and "st_amount (pts ! i) = snd (?rows ! i)"
      using i' by (simp_all add: pts_def trends_nth)
    with r have "st_period (pts ! i) = trend_label (fst (?rows ! i)) \<and>
                 fst (?rows ! i) \<in> (\<lambda>t. groupFormat p (t_date t)) ` set (filter (\<lambda>t. t_userId t = userId) window) \<and>
                 st_amount (pts ! i) =
                   sum_list (map (\<lambda>t. \<bar>t_amount t\<bar>)
                     (filter (\<lambda>t. t_userId t = userId \<and> groupFormat p (t_date t) = fst (?rows ! i)) window))"
      unfolding w1 w2 by simp
    then show "\<exists>k. st_period (pts ! i) = trend_label k \<and>
                 k \<in> (\<lambda>t. groupFormat p (t_date t)) ` set (filter (\<lambda>t. t_userId t = userId) window) \<and>
                 st_amount (pts ! i) =
                   sum_list (map (\<lambda>t. \<bar>t_amount t\<bar>)
                     (filter (\<lambda>t. t_userId t = userId \<and> groupFormat p (t_date t) = k) window))"
      by (rule exI)
  qed
  have c3: "pts \<noteq> [] \<longrightarrow> st_change (pts ! 0) = Num 0"
  proof
    assume "pts \<noteq> []"
    then have "0 < length pts" by simp
    then have "0 < length ?rows" unfolding len .
    then show "st_change (pts ! 0) = Num 0"
      by (simp add: pts_def trends_nth(3))
  qed
  have c4: "\<forall>i. 0 < i \<and> i < length pts \<longrightarrow>
            st_change (pts ! i) =
              js_times100 (js_div (st_amount (pts ! i) - st_amount (pts ! (i - 1)))
                                  (st_amount (pts ! (i - 1))))"
  proof (intro allI impI)
    fix i assume i: "0 < i \<and> i < length pts"
    then have "i < length pts" "i - 1 < length pts" by arith+
    then have "i < length ?rows" "i - 1 < length ?rows" unfolding len .
    then show "st_change (pts ! i) =
              js_times100 (js_div (st_amount (pts ! i) - st_amount (pts ! (i - 1)))
                                  (st_amount (pts ! (i - 1))))"
      using i by (simp add: pts_def trends_nth)
  qed
  have c5: "\<forall>i. 0 < i \<and> i < length pts \<and> st_amount (pts ! (i - 1)) \<noteq> 0 \<longrightarrow>
            st_change (pts ! i) =
              Num ((st_amount (pts ! i) - st_amount (pts ! (i - 1))) / st_amount (pts ! (i - 1)) * 100)"
    using c4 by (simp add: js_div_Num)
  from c1 c2 c3 c4 c5 show ?thesis by (intro conjI)
qed

text \<open>
  Expenses of 100 in February and 150 in March, by month, on 20 March: the changes are
  0 and 50.
\<close>

theorem getSpendingTrends_change_witness:
  "getSpendingTrends [tx feb10 ''Food'' 100 Expense, tx mar10 ''Food'' 150 Expense] mar20 alice Month =
     [\<lparr>st_period = ''2024-02'', st_amount = 100, st_change = Num 0\<rparr>,
      \<lparr>st_period = ''2024-03'', st_amount = 150, st_change = Num 50\<rparr>] \<and>
   st_change (getSpendingTrends [tx feb10 ''Food'' 100 Expense, tx mar10 ''Food'' 150 Expense]
                mar20 alice Month ! 0) = Num 0 \<and>
   st_change (getSpendingTrends [tx feb10 ''Food'' 100 Expense, tx mar10 ''Food'' 150 Expense]
                mar20 alice Month ! 1) = Num ((150 - 100) / 100 * 100)"
proof -
  let ?pts = "getSpendingTrends [tx feb10 ''Food'' 100 Expense, tx mar10 ''Food'' 150 Expense]
                mar20 alice Month"
  have pts: "?pts =
     [\<lparr>st_period = ''2024-02'', st_amount = 100, st_change = Num 0\<rparr>,
      \<lparr>st_period = ''2024-03'', st_amount = 150, st_change = Num 50\<rparr>]"
    by code_simp
  have h: "?pts \<noteq> []" "0 < (1::nat) \<and> 1 < length ?pts \<and> st_amount (?pts ! (1 - 1)) \<noteq> 0"
    unfolding pts by simp_all
  have a: "st_amount (?pts ! 1) = 150" "st_amount (?pts ! (1 - 1)) = 100"
    unfolding pts by simp_all
  from getSpendingTrends_change
         [where txs = "[tx feb10 ''Food'' 100 Expense, tx mar10 ''Food'' 150 Expense]"
            and now = mar20 and userId = alice and p = Month]
  have "st_change (?pts ! 0) = Num 0"
    and "st_change (?pts ! 1) =
           Num ((st_amount (?pts ! 1) - st_amount (?pts ! (1 - 1))) / st_amount (?pts ! (1 - 1)) * 100)"
    using h by blast+
  then show ?thesis using pts unfolding a by simp
qed

text \<open>
  C4, as stated, fails: the window is not the trailing twelve months, since it has no
  upper bound. On 20 March 2024 an expense dated 10 March 2025 is aggregated, and is a
  point of the series.
\<close>

theorem getSpendingTrends_includes_future:
  "mar20 < mar10_2025 \<and>
   getSpendingTrends [tx mar10_2025 ''Food'' 70 Expense] mar20 alice Month =
     [\<lparr>st_period = ''2025-03'', st_amount = 70, st_change = Num 0\<rparr>]"
  by code_simp

section \<open>Monthly summary\<close>

lemma month_op_range: "1 \<le> month_op t \<and> month_op t \<le> 12"
  by (simp add: month_op_def getMonth_def)

lemma nat_toString_digit: "n < 10 \<Longrightarrow> nat_toString n = [digit_char n]"
  by (simp add: nat_toString.simps)

lemma nat_toString_two: "10 \<le> n \<Longrightarrow> n < 100 \<Longrightarrow> nat_toString n = [digit_char (n div 10), digit_char (n mod 10)]"
  by (subst nat_toString.simps) (simp add: nat_toString_digit)

lemma padStart_two_digits:
  assumes "n < 100"
  shows "padStart 2 (CHR ''0'') (nat_toString n) = [digit_char (n div 10), digit_char (n mod 10)]"
proof (cases "n < 10")
  case True
  then show ?thesis
    by (simp add: padStart_def nat_toString_digit digit_char_def)
next
  case False
  with assms show ?thesis
    by (simp add: padStart_def nat_toString_two)
qed

lemma month_label_two_digits:
  assumes "1 \<le> m" "m \<le> 12"
  shows "month_label y m =
           toString y @ ''-'' @ [digit_char (nat m div 10), digit_char (nat m mod 10)]"
proof -
  have "toString m = nat_toString (nat m)" using assms by (simp add: toString_def)
  moreover have "nat m < 100" using assms by simp
  ultimately show ?thesis by (simp add: month_label_def padStart_two_digits)
qed

lemma sum_acc_cond:
  "sum_acc (\<lambda>t. if P t then f t else 0) docs = sum_list (map f (filter P docs))"
  unfolding sum_acc_def by (induction docs) simp_all



lemma monthly_groups_sorted:
  "sorted_wrt (<) (map fst (sort_key fst (group_stage key acc docs)))"
proof -
  have "distinct (map fst (group_stage key acc docs))"
    by (simp add: group_stage_keys)
  then have "distinct (map fst (sort_key fst (group_stage key acc docs)))"
    by (simp add: distinct_map)
  moreover have "sorted (map fst (sort_key fst (group_stage key acc docs)))"
    by (rule sorted_sort_key)
  ultimately show ?thesis by (simp add: strict_sorted_iff)
qed

lemma monthly_groups_set:
  "set (map fst (sort_key fst (group_stage key acc docs))) = key ` set docs"
proof -
  have "set (map fst (sort_key fst (group_stage key acc docs))) =
        set (map fst (group_stage key acc docs))"
    by simp
  then show ?thesis unfolding group_stage_keys by simp
qed

text \<open>
  C7. The buckets of \<open>getMonthlySummary\<close> are in strictly ascending order of (year,
  month); their keys are exactly the (year, month) pairs of the user's transactions in
  the window, so a month without a transaction has no bucket; the month number is from
  1 to 12 and the label is the year, a hyphen and the two decimal digits of the month;
  income and expenses are the sums of the stored amounts of the bucket's income and
  expense transactions, the latter in absolute value; and in every bucket the expenses
  are not negative and net = income - expenses.
\<close>

theorem getMonthlySummary_buckets:
  fixes txs now userId months
  defines "matched \<equiv> filter (\<lambda>t. t_userId t = userId \<and>
                         setMonth now (getMonth now - months) \<le> t_date t \<and> t_date t \<le> now) txs"
  defines "buckets \<equiv> getMonthlySummary txs now userId months"
  shows "(\<exists>keys.
            sorted_wrt (<) keys \<and>
            set keys = (\<lambda>t. (year_op (t_date t), month_op (t_date t))) ` set matched \<and>
            (\<forall>k\<in>set keys. 1 \<le> snd k \<and> snd k \<le> 12) \<and>
            map md_month buckets =
              map (\<lambda>k. toString (fst k) @ ''-'' @
                         [digit_char (nat (snd k) div 10), digit_char (nat (snd k) mod 10)]) keys \<and>
            map md_income buckets =
              map (\<lambda>k. sum_list (map t_amount
                     (filter (\<lambda>t. t_type t = Income)
                        (filter (\<lambda>t. (year_op (t_date t), month_op (t_date t)) = k) matched)))) keys \<and>
            map md_expenses buckets =
              map (\<lambda>k. \<bar>sum_list (map t_amount
                     (filter (\<lambda>t. t_type t = Expense)
                        (filter (\<lambda>t. (year_op (t_date t), month_op (t_date t)) = k) matched)))\<bar>) keys) \<and>
         (\<forall>b\<in>set buckets. 0 \<le> md_expenses b \<and> md_net b = md_income b - md_expenses b)"
proof -
  let ?key = "\<lambda>t. (year_op (t_date t), month_op (t_date t))"
  let ?acc = "\<lambda>g. (sum_acc (\<lambda>t. if t_type t = Income then t_amount t else 0) g,
                    sum_acc (\<lambda>t. if t_type t = Expense then t_amount t else 0) g)"
  let ?grouped = "group_stage ?key ?acc matched"
  let ?rows = "sort_key fst ?grouped"
  let ?keys = "map fst ?rows"
  have buckets: "buckets =
     map (\<lambda>data. \<lparr>md_month = month_label (fst (fst data)) (snd (fst data)),
                   md_income = fst (snd data),
                   md_expenses = \<bar>snd (snd data)\<bar>,
                   md_net = fst (snd data) - \<bar>snd (snd data)\<bar>\<rparr>) ?rows"
    by (simp add: buckets_def matched_def getMonthlySummary_def Let_def)
  have k1: "sorted_wrt (<) ?keys" by (rule monthly_groups_sorted)
  have k2: "set ?keys = ?key ` set matched" by (rule monthly_groups_set)
  have k3: "\<forall>k\<in>set ?keys. 1 \<le> snd k \<and> snd k \<le> 12"
    unfolding k2 using month_op_range by auto
  have row: "snd d = ?acc (filter (\<lambda>t. ?key t = fst d) matched)" if "d \<in> set ?rows" for d
  proof -
    from that have "(fst d, snd d) \<in> set ?grouped" by simp
    then show ?thesis unfolding group_stage_mem by simp
  qed
  have k4: "map md_month buckets =
              map (\<lambda>k. toString (fst k) @ ''-'' @
                         [digit_char (nat (snd k) div 10), digit_char (nat (snd k) mod 10)]) ?keys"
  proof -
    have lab: "month_label (fst k) (snd k) =
                 toString (fst k) @ ''-'' @
                   [digit_char (nat (snd k) div 10), digit_char (nat (snd k) mod 10)]"
      if "k \<in> set ?keys" for k
    proof -
      from k3 that have "1 \<le> snd k" "snd k \<le> 12" by blast+
      then show ?thesis by (rule month_label_two_digits)
    qed
    have "map md_month buckets = map (\<lambda>k. month_label (fst k) (snd k)) ?keys"
      by (simp add: buckets comp_def)
    also have "\<dots> = map (\<lambda>k. toString (fst k) @ ''-'' @
                         [digit_char (nat (snd k) div 10), digit_char (nat (snd k) mod 10)]) ?keys"
      by (rule map_cong [OF refl]) (rule lab)
    finally show ?thesis .
  qed
  have k5: "map md_income buckets =
              map (\<lambda>k. sum_list (map t_amount
                     (filter (\<lambda>t. t_type t = Income)
                        (filter (\<lambda>t. ?key t = k) matched)))) ?keys"
  proof -
    have "map md_income buckets = map (\<lambda>d. fst (snd d)) ?rows"
      by (simp add: buckets comp_def)
    also have "\<dots> = map (\<lambda>d. sum_list (map t_amount
                     (filter (\<lambda>t. t_type t = Income)
                        (filter (\<lambda>t. ?key t = fst d) matched)))) ?rows"
      by (rule map_cong [OF refl]) (simp add: row sum_acc_cond)
    finally show ?thesis by (simp add: comp_def)
  qed
  have k6: "map md_expenses buckets =
              map (\<lambda>k. \<bar>sum_list (map t_amount
                     (filter (\<lambda>t. t_type t = Expense)
                        (filter (\<lambda>t. ?key t = k) matched)))\<bar>) ?keys"
  proof -
    have "map md_expenses buckets = map (\<lambda>d. \<bar>snd (snd d)\<bar>) ?rows"
      by (simp add: buckets comp_def)
    also have "\<dots> = map (\<lambda>d. \<bar>sum_list (map t_amount
                     (filter (\<lambda>t. t_type t = Expense)
                        (filter (\<lambda>t. ?key t = fst d) matched)))\<bar>) ?rows"
      by (rule map_cong [OF refl]) (simp add: row sum_acc_cond)
    finally show ?thesis by (simp add: comp_def)
  qed
  have k7: "\<forall>b\<in>set buckets. 0 \<le> md_expenses b \<and> md_net b = md_income b - md_expenses b"
    unfolding buckets by auto
  from k1 k2 k3 k4 k5 k6 have "\<exists>keys.
            sorted_wrt (<) keys \<and>
            set keys = ?key ` set matched \<and>
            (\<forall>k\<in>set keys. 1 \<le> snd k \<and> snd k \<le> 12) \<and>
            map md_month buckets =
              map (\<lambda>k. toString (fst k) @ ''-'' @
                         [digit_char (nat (snd k) div 10), digit_char (nat (snd k) mod 10)]) keys \<and>
            map md_income buckets =
              map (\<lambda>k. sum_list (map t_amount
                     (filter (\<lambda>t. t_type t = Income)
                        (filter (\<lambda>t. ?key t = k) matched)))) keys \<and>
            map md_expenses buckets =
              map (\<lambda>k. \<bar>sum_list (map t_amount
                     (filter (\<lambda>t. t_type t = Expense)
                        (filter (\<lambda>t. ?key t = k) matched)))\<bar>) keys"
    by (intro exI [of _ ?keys] conjI)
  with k7 show ?thesis by (intro conjI)
qed

text \<open>
  One expense of 100 and one income of 300 in March give exactly one bucket, with
  income 300, expenses 100 and net 200.
\<close>

theorem getMonthlySummary_buckets_witness:
  "getMonthlySummary [tx mar10 ''Food'' 100 Expense, tx mar15 ''Salary'' 300 Income] mar20 alice 6 =
     [\<lparr>md_month = ''2024-03'', md_income = 300, md_expenses = 100, md_net = 200\<rparr>] \<and>
   0 \<le> md_expenses (hd (getMonthlySummary
          [tx mar10 ''Food'' 100 Expense, tx mar15 ''Salary'' 300 Income] mar20 alice 6)) \<and>
   md_net (hd (getMonthlySummary
          [tx mar10 ''Food'' 100 Expense, tx mar15 ''Salary'' 300 Income] mar20 alice 6)) = 300 - 100"
proof -
  let ?b = "getMonthlySummary [tx mar10 ''Food'' 100 Expense, tx mar15 ''Salary'' 300 Income]
              mar20 alice 6"
  have b: "?b = [\<lparr>md_month = ''2024-03'', md_income = 300, md_expenses = 100, md_net = 200\<rparr>]"
    by code_simp
  then have "hd ?b \<in> set ?b" by simp
  with getMonthlySummary_buckets
         [where txs = "[tx mar10 ''Food'' 100 Expense, tx mar15 ''Salary'' 300 Income]"
            and now = mar20 and userId = alice and months = 6]
  have "0 \<le> md_expenses (hd ?b) \<and> md_net (hd ?b) = md_income (hd ?b) - md_expenses (hd ?b)"
    by blast
  then show ?thesis using b by simp
qed

section \<open>The reconcilers\<close>

lemma new_Map_group_stage:
  "new_Map (group_stage key acc docs) k =
     (if k \<in> key ` set docs then Some (acc (filter (\<lambda>d. key d = k) docs)) else None)"
proof -
  have "new_Map (group_stage key acc docs) =
          map_of (map (\<lambda>k. (k, acc (filter (\<lambda>d. key d = k) docs))) (rev (remdups (map key docs))))"
    by (simp add: new_Map_def group_stage_def rev_map)
  then show ?thesis
    by (simp add: map_of_map_restrict restrict_map_def)
qed

lemma spent_lookup:
  "get_or_0 (new_Map (actualSpending txs userId lo hi)) c =
     sum_list (map (\<lambda>t. \<bar>t_amount t\<bar>)
       (filter (\<lambda>t. t_category t = c)
          (filter (\<lambda>t. t_userId t = userId \<and> t_type t = Expense \<and> lo \<le> t_date t \<and> t_date t \<le> hi) txs)))"
proof -
  let ?m = "filter (\<lambda>t. t_userId t = userId \<and> t_type t = Expense \<and> lo \<le> t_date t \<and> t_date t \<le> hi) txs"
  show ?thesis
  proof (cases "c \<in> t_category ` set ?m")
    case True
    then show ?thesis
      by (simp add: get_or_0_def actualSpending_def new_Map_group_stage sum_acc_def)
  next
    case False
    then have "filter (\<lambda>t. t_category t = c) ?m = []"
      by (auto simp: filter_empty_conv)
    with False show ?thesis
      by (simp add: get_or_0_def actualSpending_def new_Map_group_stage)
  qed
qed

lemma actualSpending_excluded:
  "hi < t_date t \<Longrightarrow>
     actualSpending (xs @ t # ys) userId lo hi = actualSpending (xs @ ys) userId lo hi"
  by (simp add: actualSpending_def)

lemma totals_by_type_excluded:
  "hi < t_date t \<Longrightarrow>
     totals_by_type (xs @ t # ys) userId lo hi = totals_by_type (xs @ ys) userId lo hi"
  by (simp add: totals_by_type_def)

lemma endOfMonth_next_day:
  "endOfMonth d + msPerDay = new_Date (getFullYear d) (getMonth d + 1) 1"
  by (simp add: endOfMonth_def new_Date_def Let_def algebra_simps)

lemma endOfMonth_midnight: "endOfMonth d mod msPerDay = 0"
  by (simp add: endOfMonth_def new_Date_def Let_def)

subsection \<open>The latest budget at or before the current month\<close>

lemma latest_None:
  "latest_budget_at_or_before budgets userId cm = None \<longleftrightarrow>
     (\<forall>b\<in>set budgets. \<not> (b_userId b = userId \<and> b_month b \<le> cm))"
proof -
  let ?f = "filter (\<lambda>b. b_userId b = userId \<and> b_month b \<le> cm) budgets"
  have "latest_budget_at_or_before budgets userId cm = None \<longleftrightarrow>
          sort_key (\<lambda>b. - b_month b) ?f = []"
    by (simp add: latest_budget_at_or_before_def split: list.splits)
  also have "\<dots> \<longleftrightarrow> set (sort_key (\<lambda>b. - b_month b) ?f) = {}"
    by (simp only: set_empty)
  also have "\<dots> \<longleftrightarrow> (\<forall>b\<in>set budgets. \<not> (b_userId b = userId \<and> b_month b \<le> cm))"
    by (auto simp: filter_empty_conv)
  finally show ?thesis .
qed

lemma latest_Some:
  assumes "latest_budget_at_or_before budgets userId cm = Some b"
  shows "b \<in> set budgets" and "b_userId b = userId" and "b_month b \<le> cm"
    and "\<forall>b'\<in>set budgets. b_userId b' = userId \<and> b_month b' \<le> cm \<longrightarrow> b_month b' \<le> b_month b"
proof -
  let ?f = "filter (\<lambda>b. b_userId b = userId \<and> b_month b \<le> cm) budgets"
  from assms obtain rest where s: "sort_key (\<lambda>b. - b_month b) ?f = b # rest"
    by (auto simp: latest_budget_at_or_before_def split: list.splits)
  have "set (sort_key (\<lambda>b. - b_month b) ?f) = set ?f" by simp
  with s have mem: "b \<in> set ?f" and sub: "set ?f = insert b (set rest)" by auto
  from mem show "b \<in> set budgets" "b_userId b = userId" "b_month b \<le> cm" by simp_all
  have "sorted (map (\<lambda>b. - b_month b) (sort_key (\<lambda>b. - b_month b) ?f))"
    by (rule sorted_sort_key)
  with s have "\<forall>x\<in>set rest. - b_month b \<le> - b_month x" by simp
  with sub have "\<forall>x\<in>set ?f. b_month x \<le> b_month b" by auto
  then show "\<forall>b'\<in>set budgets. b_userId b' = userId \<and> b_month b' \<le> cm \<longrightarrow> b_month b' \<le> b_month b"
    by simp
qed


subsection \<open>getCurrentBudget\<close>

lemma getCurrentBudget_None:
  "getCurrentBudget budgets txs now userId = None \<longleftrightarrow>
     latest_budget_at_or_before budgets userId (new_Date (getFullYear now) (getMonth now) 1) = None"
  by (simp add: getCurrentBudget_def Let_def split: option.splits)

lemma getCurrentBudget_fields:
  assumes "latest_budget_at_or_before budgets userId
             (new_Date (getFullYear now) (getMonth now) 1) = Some b"
    and "getCurrentBudget budgets txs now userId = Some r"
  shows "pr_id r = Some (b_id b)" and "pr_month r = b_month b"
    and "pr_totalBudget r = b_totalBudget b"
    and "pr_totalSpent r = sum_list (map pe_spent (pr_categoryBudgets r))"
    and "pr_totalRemaining r = pr_totalBudget r - pr_totalSpent r"
    and "pr_totalPercentage r =
           (if 0 < pr_totalBudget r then js_times100 (js_div (pr_totalSpent r) (pr_totalBudget r))
            else Num 0)"
    and "pr_overspent r = Some (pr_totalBudget r < pr_totalSpent r)"
    and "pr_categoryBudgets r =
           map (\<lambda>catBudget.
                 \<lparr>pe_category = cb_category catBudget,
                  pe_budget = cb_budget catBudget,
                  pe_spent = get_or_0 (new_Map (actualSpending txs userId (startOfMonth (b_month b))
                               (endOfMonth (b_month b)))) (cb_category catBudget),
                  pe_remaining = cb_budget catBudget -
                     get_or_0 (new_Map (actualSpending txs userId (startOfMonth (b_month b))
                               (endOfMonth (b_month b)))) (cb_category catBudget),
                  pe_percentage =
                    (if cb_budget catBudget > 0
                     then js_times100 (js_div
                            (get_or_0 (new_Map (actualSpending txs userId (startOfMonth (b_month b))
                               (endOfMonth (b_month b)))) (cb_category catBudget))
                            (cb_budget catBudget))
                     else Num 0),
                  pe_overspent = Some (get_or_0 (new_Map (actualSpending txs userId
                               (startOfMonth (b_month b)) (endOfMonth (b_month b))))
                               (cb_category catBudget) > cb_budget catBudget)\<rparr>)
               (b_categoryBudgets b)"
  using assms by (auto simp: getCurrentBudget_def Let_def foldl_plus)

text \<open>
  C5. With \<open>cm\<close> the first day of the current month: \<open>getCurrentBudget\<close> returns null
  exactly when the user has no budget whose month is at or before \<open>cm\<close>. Otherwise the
  report is that of a budget of the user with month at or before \<open>cm\<close> that no other
  such budget is later than, so a missing budget of the current month falls back to the
  latest earlier one. Its entries are the budget's category budgets in order, each with
  the sum of the absolute amounts of the user's expenses of that category dated from
  \<^verbatim>\<open>new Date(y, m, 1)\<close> to \<^verbatim>\<open>new Date(y, m + 1, 0)\<close>, where \<open>y\<close> and \<open>m\<close> are the year
  and the month of the found budget's own month field and not of the current instant,
  with remaining, percentage and overspent computed from it, and the totals are
  computed from the entries.
\<close>

theorem getCurrentBudget_latest:
  fixes budgets txs now userId
  defines "cm \<equiv> new_Date (getFullYear now) (getMonth now) 1"
  shows "(getCurrentBudget budgets txs now userId = None \<longleftrightarrow>
            (\<forall>b\<in>set budgets. \<not> (b_userId b = userId \<and> b_month b \<le> cm))) \<and>
         (\<forall>r. getCurrentBudget budgets txs now userId = Some r \<longrightarrow>
            (\<exists>b\<in>set budgets.
               b_userId b = userId \<and> b_month b \<le> cm \<and>
               (\<forall>b'\<in>set budgets. b_userId b' = userId \<and> b_month b' \<le> cm \<longrightarrow> b_month b' \<le> b_month b) \<and>
               pr_id r = Some (b_id b) \<and> pr_month r = b_month b \<and>
               pr_totalBudget r = b_totalBudget b \<and>
               map pe_category (pr_categoryBudgets r) = map cb_category (b_categoryBudgets b) \<and>
               map pe_budget (pr_categoryBudgets r) = map cb_budget (b_categoryBudgets b) \<and>
               (\<forall>e\<in>set (pr_categoryBudgets r).
                  pe_spent e =
                    sum_list (map (\<lambda>t. \<bar>t_amount t\<bar>)
                      (filter (\<lambda>t. t_category t = pe_category e)
                         (filter (\<lambda>t. t_userId t = userId \<and> t_type t = Expense \<and>
                                      new_Date (getFullYear (b_month b)) (getMonth (b_month b)) 1
                                        \<le> t_date t \<and>
                                      t_date t \<le>
                                        new_Date (getFullYear (b_month b)) (getMonth (b_month b) + 1) 0)
                            txs))) \<and>
                  pe_remaining e = pe_budget e - pe_spent e \<and>
                  pe_percentage e =
                    (if 0 < pe_budget e then Num (pe_spent e / pe_budget e * 100) else Num 0) \<and>
                  pe_overspent e = Some (pe_budget e < pe_spent e)) \<and>
               pr_totalSpent r = sum_list (map pe_spent (pr_categoryBudgets r)) \<and>
               pr_totalRemaining r = pr_totalBudget r - pr_totalSpent r \<and>
               pr_totalPercentage r =
                 (if 0 < pr_totalBudget r then Num (pr_totalSpent r / pr_totalBudget r * 100)
                  else Num 0) \<and>
               pr_overspent r = Some (pr_totalBudget r < pr_totalSpent r)))"
proof (intro conjI allI impI)
  show "getCurrentBudget budgets txs now userId = None \<longleftrightarrow>
            (\<forall>b\<in>set budgets. \<not> (b_userId b = userId \<and> b_month b \<le> cm))"
    unfolding getCurrentBudget_None cm_def by (rule latest_None)
next
  fix r assume r: "getCurrentBudget budgets txs now userId = Some r"
  then have "latest_budget_at_or_before budgets userId cm \<noteq> None"
    using getCurrentBudget_None [of budgets txs now userId] by (simp add: cm_def)
  then obtain b where b: "latest_budget_at_or_before budgets userId cm = Some b" by blast
  note l = latest_Some [OF b]
  note f = getCurrentBudget_fields [OF b [unfolded cm_def] r]
  have e: "\<forall>e\<in>set (pr_categoryBudgets r).
                  pe_spent e =
                    sum_list (map (\<lambda>t. \<bar>t_amount t\<bar>)
                      (filter (\<lambda>t. t_category t = pe_category e)
                         (filter (\<lambda>t. t_userId t = userId \<and> t_type t = Expense \<and>
                                      new_Date (getFullYear (b_month b)) (getMonth (b_month b)) 1
                                        \<le> t_date t \<and>
                                      t_date t \<le>
                                        new_Date (getFullYear (b_month b)) (getMonth (b_month b) + 1) 0)
                            txs))) \<and>
                  pe_remaining e = pe_budget e - pe_spent e \<and>
                  pe_percentage e =
                    (if 0 < pe_budget e then Num (pe_spent e / pe_budget e * 100) else Num 0) \<and>
                  pe_overspent e = Some (pe_budget e < pe_spent e)"
    unfolding f(8) by (auto simp: spent_lookup percentage_Num startOfMonth_def endOfMonth_def)
  have c: "map pe_category (pr_categoryBudgets r) = map cb_category (b_categoryBudgets b)"
    "map pe_budget (pr_categoryBudgets r) = map cb_budget (b_categoryBudgets b)"
    unfolding f(8) by (simp_all add: comp_def)
  have p: "pr_totalPercentage r =
                 (if 0 < pr_totalBudget r then Num (pr_totalSpent r / pr_totalBudget r * 100)
                  else Num 0)"
    unfolding f(6) by (simp add: percentage_Num)
  from l f(1,2,3,4,5,7) e c p
  show "\<exists>b\<in>set budgets.
               b_userId b = userId \<and> b_month b \<le> cm \<and>
               (\<forall>b'\<in>set budgets. b_userId b' = userId \<and> b_month b' \<le> cm \<longrightarrow> b_month b' \<le> b_month b) \<and>
               pr_id r = Some (b_id b) \<and> pr_month r = b_month b \<and>
               pr_totalBudget r = b_totalBudget b \<and>
               map pe_category (pr_categoryBudgets r) = map cb_category (b_categoryBudgets b) \<and>
               map pe_budget (pr_categoryBudgets r) = map cb_budget (b_categoryBudgets b) \<and>
               (\<forall>e\<in>set (pr_categoryBudgets r).
                  pe_spent e =
                    sum_list (map (\<lambda>t. \<bar>t_amount t\<bar>)
                      (filter (\<lambda>t. t_category t = pe_category e)
                         (filter (\<lambda>t. t_userId t = userId \<and> t_type t = Expense \<and>
                                      new_Date (getFullYear (b_month b)) (getMonth (b_month b)) 1
                                        \<le> t_date t \<and>
                                      t_date t \<le>
                                        new_Date (getFullYear (b_month b)) (getMonth (b_month b) + 1) 0)
                            txs))) \<and>
                  pe_remaining e = pe_budget e - pe_spent e \<and>
                  pe_percentage e =
                    (if 0 < pe_budget e then Num (pe_spent e / pe_budget e * 100) else Num 0) \<and>
                  pe_overspent e = Some (pe_budget e < pe_spent e)) \<and>
               pr_totalSpent r = sum_list (map pe_spent (pr_categoryBudgets r)) \<and>
               pr_totalRemaining r = pr_totalBudget r - pr_totalSpent r \<and>
               pr_totalPercentage r =
                 (if 0 < pr_totalBudget r then Num (pr_totalSpent r / pr_totalBudget r * 100)
                  else Num 0) \<and>
               pr_overspent r = Some (pr_totalBudget r < pr_totalSpent r)"
    by (intro bexI [of _ b] conjI)
qed

text \<open>
  On 20 May the only budget is the one of March: the report is that of March, with the
  expense of 10 March and without the one of 20 May. On 10 February the budget of March
  is later than the current month and the result is null. For a budget whose month
  field is 15 April the window starts on 1 April: the expense of 3 April is counted.
\<close>

theorem getCurrentBudget_latest_witness:
  "getCurrentBudget [food_budget] [tx mar10 ''Food'' 250 Expense, tx may20 ''Food'' 40 Expense]
     may20 alice = Some march_report \<and>
   (\<exists>b\<in>set [food_budget].
      b_month b \<le> new_Date (getFullYear may20) (getMonth may20) 1 \<and>
      pr_month march_report = b_month b \<and>
      pr_overspent march_report = Some (pr_totalBudget march_report < pr_totalSpent march_report)) \<and>
   \<not> b_month food_budget \<le> new_Date (getFullYear feb10) (getMonth feb10) 1 \<and>
   getCurrentBudget [food_budget] [tx mar10 ''Food'' 250 Expense] feb10 alice = None \<and>
   new_Date (getFullYear apr15) (getMonth apr15) 1 = new_Date 2024 3 1 \<and>
   new_Date 2024 3 1 \<le> apr03 \<and> apr03 < apr15 \<and>
   getCurrentBudget [mid_april_budget] [tx apr03 ''Food'' 250 Expense] may20 alice =
     Some april_report \<and>
   (\<exists>b\<in>set [mid_april_budget].
      pr_month april_report = b_month b \<and>
      (\<forall>e\<in>set (pr_categoryBudgets april_report).
         pe_spent e =
           sum_list (map (\<lambda>t. \<bar>t_amount t\<bar>)
             (filter (\<lambda>t. t_category t = pe_category e)
                (filter (\<lambda>t. t_userId t = alice \<and> t_type t = Expense \<and>
                             new_Date (getFullYear (b_month b)) (getMonth (b_month b)) 1
                               \<le> t_date t \<and>
                             t_date t \<le>
                               new_Date (getFullYear (b_month b)) (getMonth (b_month b) + 1) 0)
                   [tx apr03 ''Food'' 250 Expense])))))"
proof -
  have ev: "getCurrentBudget [food_budget]
              [tx mar10 ''Food'' 250 Expense, tx may20 ''Food'' 40 Expense] may20 alice =
            Some march_report"
    by code_simp
  have later: "\<not> b_month food_budget \<le> new_Date (getFullYear feb10) (getMonth feb10) 1"
    by code_simp
  have dates: "new_Date (getFullYear apr15) (getMonth apr15) 1 = new_Date 2024 3 1"
    "new_Date 2024 3 1 \<le> apr03" "apr03 < apr15"
    by code_simp+
  have ev2: "getCurrentBudget [mid_april_budget] [tx apr03 ''Food'' 250 Expense] may20 alice =
             Some april_report"
    by code_simp
  note t1 = getCurrentBudget_latest
         [where budgets = "[food_budget]"
            and txs = "[tx mar10 ''Food'' 250 Expense, tx may20 ''Food'' 40 Expense]"
            and now = may20 and userId = alice, THEN conjunct2, THEN spec, THEN mp, OF ev]
  note t2 = getCurrentBudget_latest
         [where budgets = "[food_budget]" and txs = "[tx mar10 ''Food'' 250 Expense]"
            and now = feb10 and userId = alice, THEN conjunct1]
  note t3 = getCurrentBudget_latest
         [where budgets = "[mid_april_budget]" and txs = "[tx apr03 ''Food'' 250 Expense]"
            and now = may20 and userId = alice, THEN conjunct2, THEN spec, THEN mp, OF ev2]
  from t1 obtain b where b: "b \<in> set [food_budget]"
    and "b_month b \<le> new_Date (getFullYear may20) (getMonth may20) 1"
    and "pr_month march_report = b_month b"
    and "pr_overspent march_report = Some (pr_totalBudget march_report < pr_totalSpent march_report)"
    by (elim bexE conjE)
  then have a: "\<exists>b\<in>set [food_budget].
      b_month b \<le> new_Date (getFullYear may20) (getMonth may20) 1 \<and>
      pr_month march_report = b_month b \<and>
      pr_overspent march_report = Some (pr_totalBudget march_report < pr_totalSpent march_report)"
    by (intro bexI [of _ b] conjI)
  from t2 later
  have n: "getCurrentBudget [food_budget] [tx mar10 ''Food'' 250 Expense] feb10 alice = None"
    by simp
  from t3 obtain b' where b': "b' \<in> set [mid_april_budget]"
    and m': "pr_month april_report = b_month b'"
    and e': "\<forall>e\<in>set (pr_categoryBudgets april_report).
         pe_spent e =
           sum_list (map (\<lambda>t. \<bar>t_amount t\<bar>)
             (filter (\<lambda>t. t_category t = pe_category e)
                (filter (\<lambda>t. t_userId t = alice \<and> t_type t = Expense \<and>
                             new_Date (getFullYear (b_month b')) (getMonth (b_month b')) 1
                               \<le> t_date t \<and>
                             t_date t \<le>
                               new_Date (getFullYear (b_month b')) (getMonth (b_month b') + 1) 0)
                   [tx apr03 ''Food'' 250 Expense]))) \<and>
         pe_remaining e = pe_budget e - pe_spent e \<and>
         pe_percentage e =
           (if 0 < pe_budget e then Num (pe_spent e / pe_budget e * 100) else Num 0) \<and>
         pe_overspent e = Some (pe_budget e < pe_spent e)"
    by (elim bexE conjE)
  from e' have e'': "\<forall>e\<in>set (pr_categoryBudgets april_report).
         pe_spent e =
           sum_list (map (\<lambda>t. \<bar>t_amount t\<bar>)
             (filter (\<lambda>t. t_category t = pe_category e)
                (filter (\<lambda>t. t_userId t = alice \<and> t_type t = Expense \<and>
                             new_Date (getFullYear (b_month b')) (getMonth (b_month b')) 1
                               \<le> t_date t \<and>
                             t_date t \<le>
                               new_Date (getFullYear (b_month b')) (getMonth (b_month b') + 1) 0)
                   [tx apr03 ''Food'' 250 Expense])))"
    by blast
  from b' m' e'' have c: "\<exists>b\<in>set [mid_april_budget].
      pr_month april_report = b_month b \<and>
      (\<forall>e\<in>set (pr_categoryBudgets april_report).
         pe_spent e =
           sum_list (map (\<lambda>t. \<bar>t_amount t\<bar>)
             (filter (\<lambda>t. t_category t = pe_category e)
                (filter (\<lambda>t. t_userId t = alice \<and> t_type t = Expense \<and>
                             new_Date (getFullYear (b_month b)) (getMonth (b_month b)) 1
                               \<le> t_date t \<and>
                             t_date t \<le>
                               new_Date (getFullYear (b_month b)) (getMonth (b_month b) + 1) 0)
                   [tx apr03 ''Food'' 250 Expense]))))"
    by (intro bexI [of _ b'] conjI)
  from ev a later n dates ev2 c show ?thesis by (intro conjI)
qed

subsection \<open>getBudgetProgress\<close>

lemma getBudgetProgress_None:
  "getBudgetProgress budgets txs now userId month = None \<longleftrightarrow>
     find (\<lambda>b. b_userId b = userId \<and> b_month b = targetMonth now month) budgets = None"
  by (simp add: getBudgetProgress_def Let_def split: option.splits)

lemma getBudgetProgress_fields:
  assumes "find (\<lambda>b. b_userId b = userId \<and> b_month b = targetMonth now month) budgets = Some b"
    and "getBudgetProgress budgets txs now userId month = Some r"
  shows "pr_month r = b_month b" and "pr_totalBudget r = b_totalBudget b"
    and "map pe_category (pr_categoryBudgets r) = map cb_category (b_categoryBudgets b)"
    and "map pe_budget (pr_categoryBudgets r) = map cb_budget (b_categoryBudgets b)"
  using assms by (auto simp: getBudgetProgress_def Let_def comp_def)

text \<open>
  C8, as the code has it. \<open>getBudgetProgress\<close> looks the budget up under the month
  argument as it is given, and under the first day of the current month when the
  argument is absent. It returns null exactly when the user has no budget whose month
  equals that key, and otherwise the report of a budget with that month. It is total:
  the absence of a budget is the value null, not an error.
\<close>

theorem getBudgetProgress_lookup:
  "(getBudgetProgress budgets txs now userId month = None \<longleftrightarrow>
      (\<forall>b\<in>set budgets. \<not> (b_userId b = userId \<and> b_month b = targetMonth now month))) \<and>
   targetMonth now None = new_Date (getFullYear now) (getMonth now) 1 \<and>
   (\<forall>m. targetMonth now (Some m) = m) \<and>
   (\<forall>r. getBudgetProgress budgets txs now userId month = Some r \<longrightarrow>
      pr_month r = targetMonth now month \<and>
      (\<exists>b\<in>set budgets.
         b_userId b = userId \<and> b_month b = targetMonth now month \<and>
         pr_totalBudget r = b_totalBudget b \<and>
         map pe_category (pr_categoryBudgets r) = map cb_category (b_categoryBudgets b) \<and>
         map pe_budget (pr_categoryBudgets r) = map cb_budget (b_categoryBudgets b)))"
proof (intro conjI allI impI)
  show "getBudgetProgress budgets txs now userId month = None \<longleftrightarrow>
      (\<forall>b\<in>set budgets. \<not> (b_userId b = userId \<and> b_month b = targetMonth now month))"
    unfolding getBudgetProgress_None by (auto simp: find_None_iff)
next
  show "targetMonth now None = new_Date (getFullYear now) (getMonth now) 1"
    by (simp add: targetMonth_def)
next
  fix m show "targetMonth now (Some m) = m" by (simp add: targetMonth_def)
next
  fix r assume r: "getBudgetProgress budgets txs now userId month = Some r"
  then have "find (\<lambda>b. b_userId b = userId \<and> b_month b = targetMonth now month) budgets \<noteq> None"
    using getBudgetProgress_None [of budgets txs now userId month] by simp
  then obtain b where
    b: "find (\<lambda>b. b_userId b = userId \<and> b_month b = targetMonth now month) budgets = Some b"
    by blast
  then have m: "b \<in> set budgets" "b_userId b = userId" "b_month b = targetMonth now month"
    by (auto simp: find_Some_iff)
  note f = getBudgetProgress_fields [OF b r]
  from f(1) m(3) show "pr_month r = targetMonth now month" by simp
  from m f(2,3,4)
  show "\<exists>b\<in>set budgets.
         b_userId b = userId \<and> b_month b = targetMonth now month \<and>
         pr_totalBudget r = b_totalBudget b \<and>
         map pe_category (pr_categoryBudgets r) = map cb_category (b_categoryBudgets b) \<and>
         map pe_budget (pr_categoryBudgets r) = map cb_budget (b_categoryBudgets b)"
    by (intro bexI [of _ b] conjI)
qed

text \<open>
  With the budget of 1 March stored: the argument 15 March finds nothing, and no
  argument on 20 March finds the budget of 1 March.
\<close>

theorem getBudgetProgress_lookup_witness:
  "\<not> b_month food_budget = targetMonth mar20 (Some mar15) \<and>
   getBudgetProgress [food_budget] [] mar20 alice (Some mar15) = None \<and>
   getBudgetProgress [food_budget] [] mar20 alice None \<noteq> None \<and>
   pr_month (the (getBudgetProgress [food_budget] [] mar20 alice None)) = mar01"
proof -
  have ne: "\<not> b_month food_budget = targetMonth mar20 (Some mar15)" by code_simp
  with getBudgetProgress_lookup [of "[food_budget]" "[]" mar20 alice "Some mar15"]
  have n: "getBudgetProgress [food_budget] [] mar20 alice (Some mar15) = None" by simp
  have s: "getBudgetProgress [food_budget] [] mar20 alice None \<noteq> None" by code_simp
  then obtain r where r: "getBudgetProgress [food_budget] [] mar20 alice None = Some r" by blast
  have t: "targetMonth mar20 None = mar01" by code_simp
  from getBudgetProgress_lookup [of "[food_budget]" "[]" mar20 alice None] r t
  have "pr_month r = mar01" by simp
  with r have "pr_month (the (getBudgetProgress [food_budget] [] mar20 alice None)) = mar01"
    by simp
  with ne n s show ?thesis by (intro conjI)
qed

text \<open>
  C8, as stated, fails: a month argument is not resolved to the first day of its
  calendar month. For the argument 15 March the result is null although the user has a
  budget for 1 March, the first day of that month.
\<close>

theorem getBudgetProgress_month_not_resolved:
  "getBudgetProgress [food_budget] [] mar20 alice (Some mar15) = None \<and>
   b_userId food_budget = alice \<and>
   b_month food_budget = new_Date (getFullYear mar15) (getMonth mar15) 1"
  by code_simp

subsection \<open>The upper bound of the month window\<close>

text \<open>
  C10. The upper bound \<open>endOfMonth d\<close> is a midnight, one day before the first instant of
  the next month: the midnight that starts the last day of the month. A transaction dated
  after it, in particular one on the last day at a time after midnight, changes nothing
  in the result of \<open>getBudgetProgress\<close>, of \<open>getCurrentBudget\<close> (for the window of the
  budget it finds) and of \<open>getFinancialOverview\<close> (monthly totals, year-to-date totals
  and top categories): the result is the same with and without it.
\<close>

theorem last_day_after_midnight_excluded:
  "endOfMonth d mod msPerDay = 0 \<and>
   endOfMonth d + msPerDay = new_Date (getFullYear d) (getMonth d + 1) 1 \<and>
   (endOfMonth (targetMonth now month) < t_date t \<longrightarrow>
      getBudgetProgress budgets (xs @ t # ys) now userId month =
      getBudgetProgress budgets (xs @ ys) now userId month) \<and>
   (\<forall>b. latest_budget_at_or_before budgets userId
           (new_Date (getFullYear now) (getMonth now) 1) = Some b \<and>
        endOfMonth (b_month b) < t_date t \<longrightarrow>
      getCurrentBudget budgets (xs @ t # ys) now userId =
      getCurrentBudget budgets (xs @ ys) now userId) \<and>
   (endOfMonth (new_Date (getFullYear now) (getMonth now) 1) < t_date t \<longrightarrow>
      getFinancialOverview (xs @ t # ys) now userId = getFinancialOverview (xs @ ys) now userId)"
proof (intro conjI allI impI)
  show "endOfMonth d mod msPerDay = 0" by (rule endOfMonth_midnight)
  show "endOfMonth d + msPerDay = new_Date (getFullYear d) (getMonth d + 1) 1"
    by (rule endOfMonth_next_day)
next
  assume "endOfMonth (targetMonth now month) < t_date t"
  then show "getBudgetProgress budgets (xs @ t # ys) now userId month =
      getBudgetProgress budgets (xs @ ys) now userId month"
    by (simp add: getBudgetProgress_def Let_def actualSpending_excluded split: option.splits)
next
  fix b
  assume "latest_budget_at_or_before budgets userId
           (new_Date (getFullYear now) (getMonth now) 1) = Some b \<and>
        endOfMonth (b_month b) < t_date t"
  then show "getCurrentBudget budgets (xs @ t # ys) now userId =
      getCurrentBudget budgets (xs @ ys) now userId"
    by (simp add: getCurrentBudget_def Let_def actualSpending_excluded)
next
  assume "endOfMonth (new_Date (getFullYear now) (getMonth now) 1) < t_date t"
  then show "getFinancialOverview (xs @ t # ys) now userId = getFinancialOverview (xs @ ys) now userId"
    by (simp add: getFinancialOverview_def Let_def actualSpending_excluded totals_by_type_excluded)
qed

text \<open>
  An expense of 250 at noon on 31 March 2024 lies after the bound of March and before
  April, in the calendar month of March, and is counted by none of the three: the
  budget of March reports a total spent of 0.
\<close>

theorem last_day_after_midnight_excluded_witness:
  "endOfMonth mar01 < mar31_noon \<and> mar31_noon < endOfMonth mar01 + msPerDay \<and>
   getFullYear mar31_noon = getFullYear mar01 \<and> getMonth mar31_noon = getMonth mar01 \<and>
   getBudgetProgress [food_budget] [tx mar31_noon ''Food'' 250 Expense] mar20 alice (Some mar01) =
     getBudgetProgress [food_budget] [] mar20 alice (Some mar01) \<and>
   map_option pr_totalSpent
     (getBudgetProgress [food_budget] [tx mar31_noon ''Food'' 250 Expense] mar20 alice (Some mar01)) =
     Some 0 \<and>
   getCurrentBudget [food_budget] [tx mar31_noon ''Food'' 250 Expense] mar20 alice =
     getCurrentBudget [food_budget] [] mar20 alice \<and>
   getFinancialOverview [tx mar31_noon ''Food'' 250 Expense] mar20 alice =
     getFinancialOverview [] mar20 alice"
proof -
  have d: "endOfMonth mar01 < mar31_noon" "mar31_noon < endOfMonth mar01 + msPerDay"
    "getFullYear mar31_noon = getFullYear mar01" "getMonth mar31_noon = getMonth mar01"
    by code_simp+
  have h1: "endOfMonth (targetMonth mar20 (Some mar01)) < t_date (tx mar31_noon ''Food'' 250 Expense)"
    by code_simp
  have h2: "latest_budget_at_or_before [food_budget] alice
              (new_Date (getFullYear mar20) (getMonth mar20) 1) = Some food_budget \<and>
            endOfMonth (b_month food_budget) < t_date (tx mar31_noon ''Food'' 250 Expense)"
    by code_simp
  have h3: "endOfMonth (new_Date (getFullYear mar20) (getMonth mar20) 1)
              < t_date (tx mar31_noon ''Food'' 250 Expense)"
    by code_simp
  have z: "map_option pr_totalSpent (getBudgetProgress [food_budget] [] mar20 alice (Some mar01)) = Some 0"
    by code_simp
  note th = last_day_after_midnight_excluded
    [where t = "tx mar31_noon ''Food'' 250 Expense" and xs = "[]" and ys = "[]"
       and budgets = "[food_budget]" and now = mar20 and userId = alice and month = "Some mar01"
       and d = mar01]
  from th h1 have e1:
    "getBudgetProgress [food_budget] [tx mar31_noon ''Food'' 250 Expense] mar20 alice (Some mar01) =
     getBudgetProgress [food_budget] [] mar20 alice (Some mar01)"
    by simp
  from th h2 have e2:
    "getCurrentBudget [food_budget] [tx mar31_noon ''Food'' 250 Expense] mar20 alice =
     getCurrentBudget [food_budget] [] mar20 alice"
    by simp
  from th h3 have e3:
    "getFinancialOverview [tx mar31_noon ''Food'' 250 Expense] mar20 alice =
     getFinancialOverview [] mar20 alice"
    by simp
  from d e1 e2 e3 z show ?thesis by simp
qed

section \<open>The sum check of the budget writes\<close>

lemma Budget_create_fields:
  assumes "Budget_create newId budgetData userId = Some b"
  shows "bd_totalBudget budgetData = Some (b_totalBudget b)"
    and "b_categoryBudgets b = (case bd_categoryBudgets budgetData of None \<Rightarrow> [] | Some l \<Rightarrow> l)"
  using assms
  by (auto simp: Budget_create_def Let_def split: option.splits if_splits)

lemma createBudget_cases:
  "createBudget budgets newId budgetData userId = (Inl BudgetExists, budgets) \<or>
   createBudget budgets newId budgetData userId = (Inl SumMismatch, budgets) \<or>
   createBudget budgets newId budgetData userId = (Inl ValidationError, budgets) \<or>
   (\<exists>b. createBudget budgets newId budgetData userId = (Inr b, budgets @ [b]) \<and>
        Budget_create newId budgetData userId = Some b \<and>
        Some (case bd_categoryBudgets budgetData of None \<Rightarrow> 0 | Some cbs \<Rightarrow> totalCategoryBudget cbs)
          = bd_totalBudget budgetData)"
  by (simp add: createBudget_def Let_def split: option.splits)

lemma createBudget_created:
  assumes "createBudget budgets newId budgetData userId = (Inr b, budgets')"
  shows "sum_invariant b" and "budgets' = budgets @ [b]"
proof -
  from assms createBudget_cases [of budgets newId budgetData userId]
  have c: "Budget_create newId budgetData userId = Some b"
    and t: "Some (case bd_categoryBudgets budgetData of None \<Rightarrow> 0
                  | Some cbs \<Rightarrow> totalCategoryBudget cbs) = bd_totalBudget budgetData"
    and s: "budgets' = budgets @ [b]"
    by auto
  from s show "budgets' = budgets @ [b]" .
  from Budget_create_fields [OF c] t show "sum_invariant b"
    by (simp add: sum_invariant_def totalCategoryBudget_def split: option.splits)
qed

lemma createBudget_rejected:
  assumes "createBudget budgets newId budgetData userId = (Inl e, budgets')"
  shows "budgets' = budgets"
  using assms createBudget_cases [of budgets newId budgetData userId] by auto

lemma updateBudget_rejected:
  assumes "updateBudget budgets budgetId u userId = (Inl e, budgets')"
  shows "budgets' = budgets"
  using assms
  by (simp add: updateBudget_def split: option.splits if_splits)

lemma updateBudget_updated:
  assumes "updateBudget budgets budgetId u userId = (Inr b, budgets')"
  shows "\<exists>b0. find (\<lambda>b. b_id b = budgetId) budgets = Some b0 \<and> b = apply_update u b0 \<and>
              budgets' = update_by_id budgetId u budgets"
    and "\<not> (case (bd_categoryBudgets u, bd_totalBudget u) of
              (Some cbs, Some tb) \<Rightarrow> tb \<noteq> 0 \<and> totalCategoryBudget cbs \<noteq> tb
            | _ \<Rightarrow> False)"
  using assms
  by (auto simp: updateBudget_def split: option.splits if_splits)

lemma apply_update_both:
  assumes "bd_categoryBudgets u = Some cbs" "bd_totalBudget u = Some tb"
  shows "b_totalBudget (apply_update u b0) = tb" "b_categoryBudgets (apply_update u b0) = cbs"
  using assms by (simp_all add: apply_update_def)

lemma update_by_id_all:
  assumes "list_all P budgets" "\<And>b0. b0 \<in> set budgets \<Longrightarrow> P (apply_update u b0)"
  shows "list_all P (update_by_id i u budgets)"
  using assms by (induction budgets) auto


lemma createBudget_mismatch:
  assumes "Some (case bd_categoryBudgets budgetData of None \<Rightarrow> 0
                 | Some cbs \<Rightarrow> totalCategoryBudget cbs) \<noteq> bd_totalBudget budgetData"
  shows "\<exists>e. createBudget budgets newId budgetData userId = (Inl e, budgets)"
  using assms by (simp add: createBudget_def Let_def split: option.splits)

lemma updateBudget_mismatch:
  assumes "bd_categoryBudgets u = Some cbs" "bd_totalBudget u = Some tb" "tb \<noteq> 0"
    and "totalCategoryBudget cbs \<noteq> tb"
  shows "\<exists>e. updateBudget budgets budgetId u userId = (Inl e, budgets)"
  using assms by (simp add: updateBudget_def split: option.splits)

lemma updateBudget_checked:
  assumes "bd_categoryBudgets u = Some cbs" "bd_totalBudget u = Some tb" "tb \<noteq> 0"
    and "updateBudget budgets budgetId u userId = (Inr b, budgets')"
  shows "sum_invariant b" and "list_all sum_invariant budgets \<longrightarrow> list_all sum_invariant budgets'"
proof -
  from updateBudget_updated [OF assms(4)] assms(1,2,3)
  obtain b0 where b: "b = apply_update u b0" and s: "budgets' = update_by_id budgetId u budgets"
    and eq: "totalCategoryBudget cbs = tb"
    by auto
  have inv: "sum_invariant (apply_update u x)" for x
    using eq by (simp add: sum_invariant_def apply_update_both [OF assms(1,2)])
  from inv show "sum_invariant b" unfolding b .
  show "list_all sum_invariant budgets \<longrightarrow> list_all sum_invariant budgets'"
    unfolding s using inv by (auto intro: update_by_id_all)
qed

text \<open>
  C9, as the code has it. \<open>createBudget\<close> stores a budget only when its category budgets
  sum to its total: a created budget satisfies the equality, a mismatch is rejected, and
  a collection of budgets that satisfy it still does after the creation. \<open>updateBudget\<close>
  rejects an update that carries both the category budgets and a total that is not 0
  when their sum differs from the total, and an accepted update of that kind leaves the
  updated budget, and a collection that satisfied the equality, satisfying it. Every
  rejected write leaves the collection unchanged. An update that carries only one of the
  two fields is not checked.
\<close>

theorem budget_writes_sum_check:
  "(\<forall>b budgets'. createBudget budgets newId budgetData userId = (Inr b, budgets') \<longrightarrow>
      sum_invariant b \<and> budgets' = budgets @ [b] \<and>
      (list_all sum_invariant budgets \<longrightarrow> list_all sum_invariant budgets')) \<and>
   (Some (case bd_categoryBudgets budgetData of None \<Rightarrow> 0
          | Some cbs \<Rightarrow> totalCategoryBudget cbs) \<noteq> bd_totalBudget budgetData \<longrightarrow>
      (\<exists>e. createBudget budgets newId budgetData userId = (Inl e, budgets))) \<and>
   (\<forall>e budgets'. createBudget budgets newId budgetData userId = (Inl e, budgets') \<longrightarrow>
      budgets' = budgets) \<and>
   (\<forall>e budgets'. updateBudget budgets budgetId u userId = (Inl e, budgets') \<longrightarrow>
      budgets' = budgets) \<and>
   (\<forall>cbs tb. bd_categoryBudgets u = Some cbs \<and> bd_totalBudget u = Some tb \<and> tb \<noteq> 0 \<longrightarrow>
      (totalCategoryBudget cbs \<noteq> tb \<longrightarrow>
         (\<exists>e. updateBudget budgets budgetId u userId = (Inl e, budgets))) \<and>
      (\<forall>b budgets'. updateBudget budgets budgetId u userId = (Inr b, budgets') \<longrightarrow>
         sum_invariant b \<and>
         (list_all sum_invariant budgets \<longrightarrow> list_all sum_invariant budgets')))"
proof (intro conjI allI impI)
  fix b budgets'
  assume c: "createBudget budgets newId budgetData userId = (Inr b, budgets')"
  from createBudget_created [OF c] show "sum_invariant b" "budgets' = budgets @ [b]" .
  assume "list_all sum_invariant budgets"
  with createBudget_created [OF c] show "list_all sum_invariant budgets'" by simp
next
  assume "Some (case bd_categoryBudgets budgetData of None \<Rightarrow> 0
          | Some cbs \<Rightarrow> totalCategoryBudget cbs) \<noteq> bd_totalBudget budgetData"
  then show "\<exists>e. createBudget budgets newId budgetData userId = (Inl e, budgets)"
    by (rule createBudget_mismatch)
next
  fix e budgets'
  assume "createBudget budgets newId budgetData userId = (Inl e, budgets')"
  then show "budgets' = budgets" by (rule createBudget_rejected)
next
  fix e budgets'
  assume "updateBudget budgets budgetId u userId = (Inl e, budgets')"
  then show "budgets' = budgets" by (rule updateBudget_rejected)
next
  fix cbs tb
  assume h: "bd_categoryBudgets u = Some cbs \<and> bd_totalBudget u = Some tb \<and> tb \<noteq> 0"
  assume "totalCategoryBudget cbs \<noteq> tb"
  with h show "\<exists>e. updateBudget budgets budgetId u userId = (Inl e, budgets)"
    by (intro updateBudget_mismatch [of u cbs tb]) simp_all
next
  fix cbs tb b budgets'
  assume h: "bd_categoryBudgets u = Some cbs \<and> bd_totalBudget u = Some tb \<and> tb \<noteq> 0"
    and r: "updateBudget budgets budgetId u userId = (Inr b, budgets')"
  from h have h1: "bd_categoryBudgets u = Some cbs" and h2: "bd_totalBudget u = Some tb"
    and h3: "tb \<noteq> 0" by simp_all
  from updateBudget_checked [OF h1 h2 h3 r] show "sum_invariant b" by simp
  assume "list_all sum_invariant budgets"
  with updateBudget_checked [OF h1 h2 h3 r] show "list_all sum_invariant budgets'" by simp
qed

text \<open>
  Creating the budget of March with Rent 300 and total 300 succeeds; with total 500 it
  is rejected, as is the update of the stored budget to total 500 with Rent 300; the
  update to Rent 400 and total 400 succeeds and keeps the equality.
\<close>

theorem budget_writes_sum_check_witness:
  "createBudget [] 2 rent_data alice = (Inr rent_budget, [rent_budget]) \<and>
   sum_invariant rent_budget \<and>
   (\<exists>e. createBudget [] 2 (rent_data\<lparr>bd_totalBudget := Some 500\<rparr>) alice = (Inl e, [])) \<and>
   (\<exists>e. updateBudget [rent_budget] 2 (rent_data\<lparr>bd_totalBudget := Some 500\<rparr>) alice =
          (Inl e, [rent_budget])) \<and>
   updateBudget [rent_budget] 2
     (no_update\<lparr>bd_totalBudget := Some 400,
                 bd_categoryBudgets := Some [\<lparr>cb_category = ''Rent'', cb_budget = 400, cb_spent = 0\<rparr>]\<rparr>)
     alice =
     (Inr (rent_budget\<lparr>b_totalBudget := 400,
             b_categoryBudgets := [\<lparr>cb_category = ''Rent'', cb_budget = 400, cb_spent = 0\<rparr>]\<rparr>),
      [rent_budget\<lparr>b_totalBudget := 400,
         b_categoryBudgets := [\<lparr>cb_category = ''Rent'', cb_budget = 400, cb_spent = 0\<rparr>]\<rparr>]) \<and>
   sum_invariant (rent_budget\<lparr>b_totalBudget := 400,
             b_categoryBudgets := [\<lparr>cb_category = ''Rent'', cb_budget = 400, cb_spent = 0\<rparr>]\<rparr>)"
proof -
  let ?u = "no_update\<lparr>bd_totalBudget := Some 400,
                 bd_categoryBudgets := Some [\<lparr>cb_category = ''Rent'', cb_budget = 400, cb_spent = 0\<rparr>]\<rparr>"
  let ?b = "rent_budget\<lparr>b_totalBudget := 400,
             b_categoryBudgets := [\<lparr>cb_category = ''Rent'', cb_budget = 400, cb_spent = 0\<rparr>]\<rparr>"
  have c: "createBudget [] 2 rent_data alice = (Inr rent_budget, [rent_budget])"
    by code_simp
  have m: "Some (case bd_categoryBudgets (rent_data\<lparr>bd_totalBudget := Some 500\<rparr>) of None \<Rightarrow> 0
                 | Some cbs \<Rightarrow> totalCategoryBudget cbs)
             \<noteq> bd_totalBudget (rent_data\<lparr>bd_totalBudget := Some 500\<rparr>)"
    by code_simp
  have um: "bd_categoryBudgets (rent_data\<lparr>bd_totalBudget := Some 500\<rparr>) =
              Some [\<lparr>cb_category = ''Rent'', cb_budget = 300, cb_spent = 0\<rparr>] \<and>
            bd_totalBudget (rent_data\<lparr>bd_totalBudget := Some 500\<rparr>) = Some 500 \<and> (500::rat) \<noteq> 0"
    "totalCategoryBudget [\<lparr>cb_category = ''Rent'', cb_budget = 300, cb_spent = 0\<rparr>] \<noteq> 500"
    by code_simp+
  have uo: "bd_categoryBudgets ?u = Some [\<lparr>cb_category = ''Rent'', cb_budget = 400, cb_spent = 0\<rparr>] \<and>
            bd_totalBudget ?u = Some 400 \<and> (400::rat) \<noteq> 0"
    by code_simp
  have u: "updateBudget [rent_budget] 2 ?u alice = (Inr ?b, [?b])"
    by code_simp
  note t1 = budget_writes_sum_check [of "[]" 2 rent_data alice]
  note t2 = budget_writes_sum_check [of "[]" 2 "rent_data\<lparr>bd_totalBudget := Some 500\<rparr>" alice]
  note t3 = budget_writes_sum_check
         [where budgets = "[rent_budget]" and budgetId = 2
            and u = "rent_data\<lparr>bd_totalBudget := Some 500\<rparr>" and userId = alice]
  note t4 = budget_writes_sum_check
         [where budgets = "[rent_budget]" and budgetId = 2 and u = ?u and userId = alice]
  have w1: "sum_invariant rent_budget"
    by (rule t1 [THEN conjunct1, THEN spec, THEN spec, THEN mp, OF c, THEN conjunct1])
  have w2: "\<exists>e. createBudget [] 2 (rent_data\<lparr>bd_totalBudget := Some 500\<rparr>) alice = (Inl e, [])"
    by (rule t2 [THEN conjunct2, THEN conjunct1, THEN mp, OF m])
  have w3: "\<exists>e. updateBudget [rent_budget] 2 (rent_data\<lparr>bd_totalBudget := Some 500\<rparr>) alice =
          (Inl e, [rent_budget])"
    by (rule t3 [THEN conjunct2, THEN conjunct2, THEN conjunct2, THEN conjunct2,
                 THEN spec, THEN spec, THEN mp, OF um(1), THEN conjunct1, THEN mp, OF um(2)])
  have w4: "sum_invariant ?b"
    by (rule t4 [THEN conjunct2, THEN conjunct2, THEN conjunct2, THEN conjunct2,
                 THEN spec, THEN spec, THEN mp, OF uo, THEN conjunct2,
                 THEN spec, THEN spec, THEN mp, OF u, THEN conjunct1])
  from c w1 w2 w3 u w4 show ?thesis by (intro conjI)
qed

text \<open>
  C9, as stated, fails: an update that carries only the total is accepted without a
  check. The stored budget with Rent 300 and total 300 becomes one with total 500, whose
  category budgets still sum to 300.
\<close>

theorem updateBudget_unchecked_total:
  "sum_invariant rent_budget \<and>
   updateBudget [rent_budget] 2 (no_update\<lparr>bd_totalBudget := Some 500\<rparr>) alice =
     (Inr (rent_budget\<lparr>b_totalBudget := 500\<rparr>), [rent_budget\<lparr>b_totalBudget := 500\<rparr>]) \<and>
   \<not> sum_invariant (rent_budget\<lparr>b_totalBudget := 500\<rparr>)"
  by code_simp

text \<open>
  The guard \<^verbatim>\<open>updateData.categoryBudgets && updateData.totalBudget\<close> is also false for a
  total of 0, so an update to total 0 with a category budget of 5 is accepted.
\<close>

lemma updateBudget_zero_total_unchecked:
  "updateBudget [rent_budget] 2
     (no_update\<lparr>bd_totalBudget := Some 0,
                 bd_categoryBudgets := Some [\<lparr>cb_category = ''Rent'', cb_budget = 5, cb_spent = 0\<rparr>]\<rparr>)
     alice =
     (Inr (rent_budget\<lparr>b_totalBudget := 0,
             b_categoryBudgets := [\<lparr>cb_category = ''Rent'', cb_budget = 5, cb_spent = 0\<rparr>]\<rparr>),
      [rent_budget\<lparr>b_totalBudget := 0,
         b_categoryBudgets := [\<lparr>cb_category = ''Rent'', cb_budget = 5, cb_spent = 0\<rparr>]\<rparr>]) \<and>
   \<not> sum_invariant (rent_budget\<lparr>b_totalBudget := 0,
             b_categoryBudgets := [\<lparr>cb_category = ''Rent'', cb_budget = 5, cb_spent = 0\<rparr>]\<rparr>)"
  by code_simp

end
